theory Spec2Isabelle
  imports Main "HOL-Library.Word" "HOL-Library.Sublist" "HOL-Library.Multiset"
    "HOL-Library.List_Lexorder"
begin

section \<open>Strings and bytes\<close>

text \<open>
  A JavaScript string is a sequence of 16-bit code units, a \<open>Uint8Array\<close> a sequence of
  bytes. String literals of the source are written \<open>js ''...''\<close>.
\<close>

type_synonym jschar = "16 word"
type_synonym jsstring = "jschar list"
type_synonym byte = "8 word"

definition js :: "string \<Rightarrow> jsstring" where
  "js s = map of_char s"

text \<open>The two quote characters, by their code units.\<close>

definition dquote :: jschar where
  "dquote = 34"

definition apostrophe :: jschar where
  "apostrophe = 39"

text \<open>
  \<open>str.replace(/pat/g, rep)\<close> for a pattern that is a literal string: the matches are
  taken from left to right and do not overlap.
\<close>

function replaceAll :: "jsstring \<Rightarrow> jsstring \<Rightarrow> jsstring \<Rightarrow> jsstring" where
  "replaceAll pat rep s =
     (if pat = [] \<or> s = [] then s
      else if prefix pat s then rep @ replaceAll pat rep (drop (length pat) s)
      else hd s # replaceAll pat rep (tl s))"
  by pat_completeness auto
termination
  by (relation "measure (\<lambda>(pat, rep, s). length s)") (auto simp: neq_Nil_conv)

declare replaceAll.simps [simp del]

text \<open>
  White space as \<open>String.prototype.trim\<close>, \<open>parseInt\<close> and the class \<open>\s\<close> of a regular
  expression know it.
\<close>

definition isWhiteSpace :: "jschar \<Rightarrow> bool" where
  "isWhiteSpace c =
     (c \<in> set [0x9, 0xA, 0xB, 0xC, 0xD, 0x20, 0xA0, 0x1680, 0x2028, 0x2029, 0x202F, 0x205F,
                0x3000, 0xFEFF]
      \<or> (0x2000 \<le> c \<and> c \<le> 0x200A))"

definition trim :: "jsstring \<Rightarrow> jsstring" where
  "trim s = rev (dropWhile isWhiteSpace (rev (dropWhile isWhiteSpace s)))"

section \<open>Regular expressions\<close>

text \<open>
  The regular expressions of the program, as data, and the backtracking matcher of the
  language over them. \<open>Star True\<close> is the greedy \<open>*\<close> and \<open>Star False\<close> the lazy \<open>*?\<close>;
  \<open>Grp\<close> is a capture group. \<open>rx_match r s\<close> lists the ways \<open>r\<close> matches a prefix of \<open>s\<close>
  in the order in which backtracking tries them, each with the texts of its groups and the
  rest of the input; the match the language finds at this position is the first of the list.
  An iteration of a star that matches the empty string is refused, as the language does.
  (No expression of the program has a group inside a repetition or an alternative, so the
  groups of a match, in the order of their opening, are the numbered groups.)
\<close>

datatype rx =
    Eps
  | Chr jschar
  | Cls "jschar \<Rightarrow> bool"
  | Seq rx rx
  | Alt rx rx
  | Grp rx
  | Star bool rx

function (sequential) rx_match :: "rx \<Rightarrow> jsstring \<Rightarrow> (jsstring list \<times> jsstring) list" where
  "rx_match Eps s = [([], s)]"
| "rx_match (Chr c) s = (case s of [] \<Rightarrow> [] | x # xs \<Rightarrow> if x = c then [([], xs)] else [])"
| "rx_match (Cls P) s = (case s of [] \<Rightarrow> [] | x # xs \<Rightarrow> if P x then [([], xs)] else [])"
| "rx_match (Seq a b) s =
     concat (map (\<lambda>(c1, s1). map (\<lambda>(c2, s2). (c1 @ c2, s2)) (rx_match b s1)) (rx_match a s))"
| "rx_match (Alt a b) s = rx_match a s @ rx_match b s"
| "rx_match (Grp a) s =
     map (\<lambda>(c, s'). (take (length s - length s') s # c, s')) (rx_match a s)"
| "rx_match (Star greedy a) s =
     (let more = concat (map (\<lambda>(c1, s1).
                   if length s1 < length s
                   then map (\<lambda>(c2, s2). (c1 @ c2, s2)) (rx_match (Star greedy a) s1)
                   else [])
                 (rx_match a s))
      in if greedy then more @ [([], s)] else ([], s) # more)"
  by pat_completeness auto
termination
  by (relation "inv_image (less_than <*lex*> less_than) (\<lambda>(r, s). (size r, length s))") auto

text \<open>
  The first match in a string, as \<open>str.match(re)\<close> and \<open>re.exec(str)\<close> find it: the text
  before the match, the groups, and the text after the match.
\<close>

fun rx_search :: "rx \<Rightarrow> jsstring \<Rightarrow> (jsstring \<times> jsstring list \<times> jsstring) option" where
  "rx_search r [] = (case rx_match r [] of [] \<Rightarrow> None | (c, rest) # _ \<Rightarrow> Some ([], c, rest))"
| "rx_search r (x # xs) =
     (case rx_match r (x # xs) of
        (c, rest) # _ \<Rightarrow> Some ([], c, rest)
      | [] \<Rightarrow> (case rx_search r xs of
                 None \<Rightarrow> None
               | Some (pre, c, rest) \<Rightarrow> Some (x # pre, c, rest)))"

definition rx_test :: "rx \<Rightarrow> jsstring \<Rightarrow> bool" where
  "rx_test r s = (rx_search r s \<noteq> None)"

text \<open>
  The loop \<open>while ((m = re.exec(str)) !== null)\<close> of a global expression: the groups of
  the successive matches, each search starting where the last match ended. (Every
  expression used this way starts with a character and so matches no empty string; on an
  empty match the loop of the source would not advance, and the list ends there.)
\<close>

function rx_all :: "rx \<Rightarrow> jsstring \<Rightarrow> jsstring list list" where
  "rx_all r s =
     (case rx_search r s of
        None \<Rightarrow> []
      | Some (pre, c, rest) \<Rightarrow> if length rest < length s then c # rx_all r rest else [c])"
  by pat_completeness auto
termination
  by (relation "measure (\<lambda>(r, s). length s)") auto

declare rx_all.simps [simp del]

text \<open>
  \<open>str.replace(re, rep)\<close> with a global expression and \<open>str.split(re)\<close>, for expressions
  that match no empty string.
\<close>

function rx_replace :: "rx \<Rightarrow> jsstring \<Rightarrow> jsstring \<Rightarrow> jsstring" where
  "rx_replace r rep s =
     (case rx_search r s of
        None \<Rightarrow> s
      | Some (pre, c, rest) \<Rightarrow>
          if length rest < length s then pre @ rep @ rx_replace r rep rest else pre @ rep @ rest)"
  by pat_completeness auto
termination
  by (relation "measure (\<lambda>(r, rep, s). length s)") auto

declare rx_replace.simps [simp del]

function rx_split :: "rx \<Rightarrow> jsstring \<Rightarrow> jsstring list" where
  "rx_split r s =
     (case rx_search r s of
        None \<Rightarrow> [s]
      | Some (pre, c, rest) \<Rightarrow>
          if length rest < length s then pre # rx_split r rest else [pre, rest])"
  by pat_completeness auto
termination
  by (relation "measure (\<lambda>(r, s). length s)") auto

declare rx_split.simps [simp del]

text \<open>Pieces of expressions: a literal text, \<open>a+\<close>, \<open>a?\<close>, and the character classes.\<close>

definition lit :: "string \<Rightarrow> rx" where
  "lit s = foldr (\<lambda>c r. Seq (Chr (of_char c)) r) s Eps"

definition Plus :: "rx \<Rightarrow> rx" where
  "Plus a = Seq a (Star True a)"

definition Opt :: "rx \<Rightarrow> rx" where
  "Opt a = Alt a Eps"

definition isWordChar :: "jschar \<Rightarrow> bool" where
  "isWordChar c =
     ((0x61 \<le> c \<and> c \<le> 0x7A) \<or> (0x41 \<le> c \<and> c \<le> 0x5A) \<or> (0x30 \<le> c \<and> c \<le> 0x39)
      \<or> c = 0x5F)"

definition isDecimalDigit :: "jschar \<Rightarrow> bool" where
  "isDecimalDigit c = (0x30 \<le> c \<and> c \<le> 0x39)"

definition isAsciiLetter :: "jschar \<Rightarrow> bool" where
  "isAsciiLetter c = ((0x61 \<le> c \<and> c \<le> 0x7A) \<or> (0x41 \<le> c \<and> c \<le> 0x5A))"

definition anyChar :: rx where
  "anyChar = Cls (\<lambda>c. True)"

definition notChar :: "char \<Rightarrow> rx" where
  "notChar x = Cls (\<lambda>c. c \<noteq> of_char x)"

definition space :: rx where
  "space = Cls isWhiteSpace"

section \<open>utils.js\<close>

text \<open>
  The argument of \<open>escapeXml\<close>: \<open>null\<close>, \<open>undefined\<close>, or a value given by its
  string conversion \<open>String(str)\<close>.
\<close>

datatype jsval = JNull | JUndefined | JString jsstring

definition escapeXml :: "jsval \<Rightarrow> jsstring" where
  "escapeXml str =
     (case str of
        JNull \<Rightarrow> []
      | JUndefined \<Rightarrow> []
      | JString s \<Rightarrow>
          replaceAll [apostrophe] (js ''&apos;'')
            (replaceAll [dquote] (js ''&quot;'')
              (replaceAll (js ''>'') (js ''&gt;'')
                (replaceAll (js ''<'') (js ''&lt;'')
                  (replaceAll (js ''&'') (js ''&amp;'') s)))))"

text \<open>
  What \<open>escapeXml\<close> writes for one code unit, and the test that a string starts with one
  of the five entities; both are used to state the properties of \<open>escapeXml\<close>.
\<close>

definition escapeChar :: "jschar \<Rightarrow> jsstring" where
  "escapeChar c =
     (if c = of_char CHR ''&'' then js ''&amp;''
      else if c = of_char CHR ''<'' then js ''&lt;''
      else if c = of_char CHR ''>'' then js ''&gt;''
      else if c = dquote then js ''&quot;''
      else if c = apostrophe then js ''&apos;''
      else [c])"

definition begins_entity :: "jsstring \<Rightarrow> bool" where
  "begins_entity s =
     (prefix (js ''&amp;'') s \<or> prefix (js ''&lt;'') s \<or> prefix (js ''&gt;'') s
      \<or> prefix (js ''&quot;'') s \<or> prefix (js ''&apos;'') s)"

text \<open>
  \<open>str.replace(pat, rep)\<close> for a pattern that is a string: the first occurrence only.
\<close>

fun replaceFirst :: "jsstring \<Rightarrow> jsstring \<Rightarrow> jsstring \<Rightarrow> jsstring" where
  "replaceFirst pat rep [] = (if pat = [] then rep else [])"
| "replaceFirst pat rep (c # cs) =
     (if prefix pat (c # cs) then rep @ drop (length pat) (c # cs)
      else c # replaceFirst pat rep cs)"

text \<open>
  \<open>formatEdxDate(dateStr)\<close>. The parameter \<open>toISO\<close> stands for \<open>new Date(dateStr)\<close>: it
  gives \<open>d.toISOString()\<close>, and \<open>None\<close> when \<open>d.getTime()\<close> is \<open>NaN\<close>.
\<close>

definition formatEdxDate :: "(jsstring \<Rightarrow> jsstring option) \<Rightarrow> jsstring \<Rightarrow> jsstring" where
  "formatEdxDate toISO dateStr =
     (if dateStr = [] then []
      else (case toISO dateStr of
              None \<Rightarrow> []
            | Some isoString \<Rightarrow> replaceFirst (js ''.000Z'') (js ''Z'') isoString))"

text \<open>\<open>escapeXml\<close> of a string, and an attribute value between its quotes.\<close>

definition esc :: "jsstring \<Rightarrow> jsstring" where
  "esc s = escapeXml (JString s)"

section \<open>tar.js\<close>

text \<open>
  \<open>writeString(buf, offset, str, maxLen)\<close>: the loop stores the low byte of each code unit
  (a \<open>Uint8Array\<close> keeps a stored number modulo 256); a store outside the array is
  ignored, as \<open>list_update\<close> does.
\<close>

definition writeString :: "byte list \<Rightarrow> nat \<Rightarrow> jsstring \<Rightarrow> nat \<Rightarrow> byte list" where
  "writeString buf offset str maxLen =
     fold (\<lambda>i b. b[offset + i := ucast (str ! i)]) [0 ..< min (length str) maxLen] buf"

text \<open>\<open>n.toString(8)\<close> for a non-negative integer, and \<open>padStart\<close>.\<close>

definition octDigit :: "nat \<Rightarrow> jschar" where
  "octDigit d = of_nat (48 + d)"

fun toOctal :: "nat \<Rightarrow> jsstring" where
  "toOctal n = (if n < 8 then [octDigit n] else toOctal (n div 8) @ [octDigit (n mod 8)])"

declare toOctal.simps [simp del]

definition padStart :: "nat \<Rightarrow> jschar \<Rightarrow> jsstring \<Rightarrow> jsstring" where
  "padStart n c s = replicate (n - length s) c @ s"

text \<open>
  \<open>createTarHeader(name, size, isDir)\<close>, in two parts: the header up to the checksum
  placeholder, the type flag and the magic (lines 69 to 99 of the source), then the
  checksum loop and its write. The time \<open>Math.floor(Date.now() / 1000)\<close> is the parameter
  \<open>mtime\<close>.
\<close>

definition tarHeaderFields :: "nat \<Rightarrow> jsstring \<Rightarrow> nat \<Rightarrow> bool \<Rightarrow> byte list" where
  "tarHeaderFields mtime name sz isDir =
     (let header = replicate 512 0;
          header = writeString header 0 name 100;
          header = writeString header 100 (if isDir then js ''0000755'' else js ''0000644'') 8;
          header = writeString header 108 (js ''0001000'') 8;
          header = writeString header 116 (js ''0001000'') 8;
          header = writeString header 124 (padStart 11 (of_char CHR ''0'') (toOctal sz)) 12;
          header = writeString header 136 (padStart 11 (of_char CHR ''0'') (toOctal mtime)) 12;
          header = fold (\<lambda>i h. h[i := 0x20]) [148 ..< 156] header;
          header = header[156 := (if isDir then 0x35 else 0x30)];
          header = writeString header 257 (js ''ustar'') 6;
          header = header[263 := 0x20];
          header = header[264 := 0x20]
      in header)"

definition createTarHeader :: "nat \<Rightarrow> jsstring \<Rightarrow> nat \<Rightarrow> bool \<Rightarrow> byte list" where
  "createTarHeader mtime name sz isDir =
     (let header = tarHeaderFields mtime name sz isDir;
          checksum = fold (\<lambda>i c. c + unat (header ! i)) [0 ..< 512] 0
      in writeString header 148 (padStart 6 (of_char CHR ''0'') (toOctal checksum) @ [0, 0x20]) 8)"

text \<open>
  Notions used to state the checksum property: the sum of the bytes, a header with its
  checksum field (bytes 148 to 155) replaced by spaces, octal digits and their value.
\<close>

definition byte_sum :: "byte list \<Rightarrow> nat" where
  "byte_sum bs = sum_list (map unat bs)"

definition blank_checksum :: "byte list \<Rightarrow> byte list" where
  "blank_checksum h = take 148 h @ replicate 8 0x20 @ drop 156 h"

definition is_octal_digit :: "byte \<Rightarrow> bool" where
  "is_octal_digit b = (48 \<le> unat b \<and> unat b \<le> 55)"

definition octal_value :: "byte list \<Rightarrow> nat" where
  "octal_value ds = fold (\<lambda>d acc. acc * 8 + (unat d - 48)) ds 0"

text \<open>\<open>name.split('/')\<close> and \<open>parts.join('/')\<close>.\<close>

fun split_on :: "jschar \<Rightarrow> jsstring \<Rightarrow> jsstring list" where
  "split_on c [] = [[]]"
| "split_on c (x # xs) =
     (if x = c then [] # split_on c xs
      else (case split_on c xs of p # ps \<Rightarrow> (x # p) # ps | [] \<Rightarrow> [[x]]))"

fun join_with :: "jsstring \<Rightarrow> jsstring list \<Rightarrow> jsstring" where
  "join_with sep [] = []"
| "join_with sep [p] = p"
| "join_with sep (p # q # ps) = p @ sep @ join_with sep (q # ps)"

text \<open>The directory paths of one entry name: every proper prefix of its parts.\<close>

definition entry_dirs :: "jsstring \<Rightarrow> jsstring list" where
  "entry_dirs name =
     (let parts = split_on (of_char CHR ''/'') name
      in map (\<lambda>i. join_with (js ''/'') (take i parts) @ js ''/'') [1 ..< length parts])"

text \<open>
  \<open>createTar(entries)\<close>: an entry is a name and its data. The set of directories is sorted
  by the default comparison of \<open>Array.prototype.sort\<close>, the lexicographic order of the
  code units.
\<close>

definition padded_data :: "byte list \<Rightarrow> byte list" where
  "padded_data d = d @ replicate ((length d + 511) div 512 * 512 - length d) 0"

definition createTar :: "nat \<Rightarrow> (jsstring \<times> byte list) list \<Rightarrow> byte list" where
  "createTar mtime entries =
     (let dirs = remdups (concat (map (\<lambda>(name, d). entry_dirs name) entries));
          dir_blocks = map (\<lambda>dir. createTarHeader mtime dir 0 True) (sort dirs);
          file_blocks = concat (map (\<lambda>(name, d).
                           [createTarHeader mtime name (length d) False, padded_data d]) entries)
      in concat (dir_blocks @ file_blocks @ [replicate 1024 0]))"

text \<open>\<open>tarGzip\<close>: \<open>gzipSync\<close> of the library is the parameter \<open>gzipSync\<close>.\<close>

definition tarGzip :: "(byte list \<Rightarrow> byte list) \<Rightarrow> nat \<Rightarrow> (jsstring \<times> byte list) list \<Rightarrow> byte list" where
  "tarGzip gzipSync mtime entries = gzipSync (createTar mtime entries)"

section \<open>archive.js\<close>

text \<open>
  A \<open>Map\<close> from paths to contents, in insertion order: an association list with distinct
  keys. \<open>map_set\<close> is \<open>Map.prototype.set\<close>: an existing key keeps its place.
\<close>

type_synonym files = "(jsstring \<times> jsstring) list"

fun map_set :: "('k \<times> 'v) list \<Rightarrow> 'k \<Rightarrow> 'v \<Rightarrow> ('k \<times> 'v) list" where
  "map_set [] k v = [(k, v)]"
| "map_set ((k', v') # m) k v = (if k' = k then (k, v) # m else (k', v') # map_set m k v)"

text \<open>
  \<open>generateTarGz(files)\<close>, up to the \<open>Blob\<close> around the bytes. \<open>new TextEncoder().encode\<close>
  is the parameter \<open>encode\<close>.
\<close>

definition generateTarGz ::
  "(byte list \<Rightarrow> byte list) \<Rightarrow> (jsstring \<Rightarrow> byte list) \<Rightarrow> nat \<Rightarrow> files \<Rightarrow> byte list" where
  "generateTarGz gzipSync encode mtime files =
     tarGzip gzipSync mtime (map (\<lambda>(path, content). (js ''course/'' @ path, encode content)) files)"

section \<open>untar.js\<close>

text \<open>
  \<open>new TextDecoder('ascii')\<close> is the decoder of windows-1252 (the encoding that the label
  \<open>ascii\<close> names): a byte below 0x80 or from 0xA0 is the code unit of the same value, the
  bytes between follow the table of that encoding.
\<close>

definition win1252 :: "byte \<Rightarrow> jschar" where
  "win1252 b =
     (if b < 0x80 \<or> 0xA0 \<le> b then ucast b
      else [0x20AC, 0x0081, 0x201A, 0x0192, 0x201E, 0x2026, 0x2020, 0x2021,
            0x02C6, 0x2030, 0x0160, 0x2039, 0x0152, 0x008D, 0x017D, 0x008F,
            0x0090, 0x2018, 0x2019, 0x201C, 0x201D, 0x2022, 0x2013, 0x2014,
            0x02DC, 0x2122, 0x0161, 0x203A, 0x0153, 0x009D, 0x017E, 0x0178] ! (unat b - 0x80))"

text \<open>
  \<open>readString(buf, offset, maxLen)\<close>: the bytes from \<open>offset\<close> up to the first NUL, at most
  \<open>maxLen\<close> of them and none beyond the end of the buffer.
\<close>

definition readString :: "byte list \<Rightarrow> nat \<Rightarrow> nat \<Rightarrow> jsstring" where
  "readString buf offset maxLen =
     map win1252 (takeWhile (\<lambda>b. b \<noteq> 0) (take maxLen (drop offset buf)))"

definition isZeroBlock :: "byte list \<Rightarrow> bool" where
  "isZeroBlock block = list_all (\<lambda>b. b = 0) (take 512 block)"

text \<open>
  \<open>data.subarray(begin, end)\<close>: a negative index counts from the end, and both are clamped
  to the array.
\<close>

definition subarray :: "byte list \<Rightarrow> int \<Rightarrow> int \<Rightarrow> byte list" where
  "subarray a b e =
     (let len = int (length a);
          rb = (if b < 0 then max (len + b) 0 else min b len);
          re = (if e < 0 then max (len + e) 0 else min e len)
      in take (nat (re - rb)) (drop (nat rb) a))"

text \<open>
  \<open>parseInt(str, 8)\<close>: white space, an optional sign, then the longest run of octal digits;
  \<open>None\<close> is \<open>NaN\<close>. (The strings read here have at most 12 characters, so the value is
  exact as a JavaScript number.)
\<close>

definition isOctalChar :: "jschar \<Rightarrow> bool" where
  "isOctalChar c = (0x30 \<le> c \<and> c \<le> 0x37)"

definition parseInt8 :: "jsstring \<Rightarrow> int option" where
  "parseInt8 str =
     (let s = dropWhile isWhiteSpace str;
          neg = (s \<noteq> [] \<and> hd s = of_char CHR ''-'');
          s = (if s \<noteq> [] \<and> (hd s = of_char CHR ''-'' \<or> hd s = of_char CHR ''+'') then tl s else s);
          ds = takeWhile isOctalChar s
      in if ds = [] then None
         else Some ((if neg then - 1 else 1) * int (fold (\<lambda>d acc. acc * 8 + (unat d - 48)) ds 0)))"

text \<open>\<open>str.indexOf(c)\<close> for a single character: \<open>- 1\<close> when it does not occur.\<close>

definition indexOf :: "jsstring \<Rightarrow> jschar \<Rightarrow> int" where
  "indexOf s c = (if c \<in> set s then int (length (takeWhile (\<lambda>x. x \<noteq> c) s)) else - 1)"

text \<open>
  One turn of the loop of \<open>extractTar(data)\<close> at \<open>offset\<close>: \<open>None\<close> when the loop ends there
  (the condition fails, or one of the two \<open>break\<close>s is taken), otherwise the next offset and
  the map of files. \<open>new TextDecoder('utf-8', { fatal: false }).decode\<close> is the parameter
  \<open>decode\<close>. A header shorter than 157 bytes has no byte 156: \<open>header[156]\<close> is then
  \<open>undefined\<close>, equal to neither 0x30 nor 0.
\<close>

definition extractTar_step ::
  "(byte list \<Rightarrow> jsstring) \<Rightarrow> byte list \<Rightarrow> int \<Rightarrow> files \<Rightarrow> (int \<times> files) option" where
  "extractTar_step decode data offset files =
     (if offset + 512 \<le> int (length data) then
        (let header = subarray data offset (offset + 512) in
         if isZeroBlock header then None
         else
           (let name = readString header 0 100 in
            if name = [] then None
            else
              (let pre = readString header 345 155;
                   fullName = (if pre \<noteq> [] then pre @ js ''/'' @ name else name);
                   sizeStr = trim (replaceAll [0] [] (readString header 124 12));
                   sz = (case parseInt8 sizeStr of None \<Rightarrow> 0 | Some n \<Rightarrow> n);
                   isFile = (156 < length header \<and> (header ! 156 = 0x30 \<or> header ! 156 = 0));
                   offset = offset + 512;
                   files =
                     (if isFile \<and> sz > 0 then
                        (let fileData = subarray data offset (offset + sz);
                             text = decode fileData;
                             slashIdx = indexOf fullName (of_char CHR ''/'');
                             cleanPath = (if slashIdx > 0 then drop (nat (slashIdx + 1)) fullName
                                          else fullName)
                         in if cleanPath \<noteq> [] then map_set files cleanPath text else files)
                      else files);
                   paddedSize = (sz + 511) div 512 * 512
               in Some (offset + paddedSize, files))))
      else None)"

text \<open>
  The loop itself. Nothing in the source bounds the number of turns: a size field that
  reads as a negative number moves the offset backwards. Not returning is the value
  \<open>None\<close>.
\<close>

partial_function (option) extractTar_loop ::
  "(byte list \<Rightarrow> jsstring) \<Rightarrow> byte list \<Rightarrow> int \<Rightarrow> files \<Rightarrow> files option" where
  "extractTar_loop decode data offset files =
     (case extractTar_step decode data offset files of
        None \<Rightarrow> Some files
      | Some (offset', files') \<Rightarrow> extractTar_loop decode data offset' files')"

declare extractTar_loop.simps [code]

definition extractTar :: "(byte list \<Rightarrow> jsstring) \<Rightarrow> byte list \<Rightarrow> files option" where
  "extractTar decode data = extractTar_loop decode data 0 []"

text \<open>
  \<open>extractTarGz(buffer)\<close>: \<open>gunzipSync\<close> of the library is a parameter, \<open>None\<close> when it
  throws; the exception leaves \<open>extractTarGz\<close> as it is.
\<close>

datatype error = GunzipFailed

definition extractTarGz ::
  "(byte list \<Rightarrow> byte list option) \<Rightarrow> (byte list \<Rightarrow> jsstring) \<Rightarrow> byte list
     \<Rightarrow> (error + files) option" where
  "extractTarGz gunzipSync decode buffer =
     (case gunzipSync buffer of
        None \<Rightarrow> Some (Inl GunzipFailed)
      | Some tarData \<Rightarrow> map_option Inr (extractTar decode tarData))"

text \<open>
  Notions used to state the round trip of the archive codec. A code unit survives the
  name field when its low byte is not NUL and reads back, through windows-1252, as
  itself: the ASCII characters but NUL, and the characters from 0xA0 to 0xFF among others.
  A path survives when it is not empty, fits the 100 bytes of the field behind the
  7 characters of \<open>course/\<close>, and all its code units survive.
\<close>

definition char_ok :: "jschar \<Rightarrow> bool" where
  "char_ok c = ((ucast c :: byte) \<noteq> 0 \<and> win1252 (ucast c) = c)"

definition path_ok :: "jsstring \<Rightarrow> bool" where
  "path_ok p = (p \<noteq> [] \<and> length p \<le> 93 \<and> list_all char_ok p)"

text \<open>
  What one archive entry contributes: its blocks in the archive (header, then the padded
  data), and what reading them does to the map of files.
\<close>

fun entry_blocks :: "nat \<Rightarrow> jsstring \<times> byte list \<Rightarrow> byte list" where
  "entry_blocks mtime (p, d) =
     createTarHeader mtime (js ''course/'' @ p) (length d) False @ padded_data d"

fun add_entry :: "(byte list \<Rightarrow> jsstring) \<Rightarrow> jsstring \<times> byte list \<Rightarrow> files \<Rightarrow> files" where
  "add_entry decode (p, d) fs = (if d \<noteq> [] then map_set fs p (decode d) else fs)"

text \<open>
  Concrete values for the parameters, used at concrete inputs: on text of ASCII
  characters UTF-8 is one byte for each character, in both directions.
\<close>

definition ascii_encode :: "jsstring \<Rightarrow> byte list" where
  "ascii_encode s = map ucast s"

definition ascii_decode :: "byte list \<Rightarrow> jsstring" where
  "ascii_decode bs = map ucast bs"

section \<open>model.js\<close>

text \<open>
  The data model. A \<open>Map\<close> keyed by block id is an association list, as above. The field
  \<open>structure\<close> of \<open>CourseData\<close> is \<open>structureRows\<close> here.
\<close>

record courseInfo =
  courseName :: jsstring
  org :: jsstring
  courseId :: jsstring
  run :: jsstring
  language :: jsstring
  startDate :: jsstring
  endDate :: jsstring
  selfPaced :: bool

record textBlock =
  text_blockId :: jsstring
  text_title :: jsstring
  text_content :: jsstring

record videoBlock =
  video_blockId :: jsstring
  video_title :: jsstring
  youtubeId :: jsstring
  html5Url :: jsstring
  startTime :: jsstring
  endTime :: jsstring

record choice =
  choice_text :: jsstring
  choice_correct :: bool
  choice_hint :: jsstring

record problemBlock =
  problem_blockId :: jsstring
  problem_title :: jsstring
  questionText :: jsstring
  choices :: "choice list"
  explanation :: jsstring
  showAnswer :: jsstring

text \<open>
  The points of an option are a number of JavaScript that \<open>parseInt\<close> has given: an
  integer that a double holds, or an infinity. \<open>roundToDouble n\<close> is the double nearest to
  the natural number \<open>n\<close>, the even one of two that are as near; \<open>None\<close> when that is
  beyond the largest double.
\<close>

datatype number = Finite int | PositiveInfinity | NegativeInfinity

function bitLength :: "nat \<Rightarrow> nat" where
  "bitLength n = (if n = 0 then 0 else Suc (bitLength (n div 2)))"
  by pat_completeness auto
termination
  by (relation "measure (\<lambda>n. n)") auto

declare bitLength.simps [simp del]

definition roundToDouble :: "nat \<Rightarrow> nat option" where
  "roundToDouble n =
     (if n < 2 ^ 53 then Some n
      else (let e = bitLength n - 53;
                q = n div 2 ^ e;
                r = n mod 2 ^ e;
                q = (if 2 ^ e < 2 * r \<or> (2 * r = 2 ^ e \<and> odd q) then q + 1 else q);
                v = q * 2 ^ e
            in if v < 2 ^ 1024 then Some v else None))"

record criterionOption =
  option_label :: jsstring
  option_points :: number

record criterion =
  criterion_name :: jsstring
  criterion_options :: "criterionOption list"

record openResponseBlock =
  ora_blockId :: jsstring
  ora_title :: jsstring
  ora_prompt :: jsstring
  criteria :: "criterion list"
  assessmentType :: jsstring

record structureRow =
  row_chapter :: jsstring
  row_sequential :: jsstring
  row_vertical :: jsstring
  row_blockType :: jsstring
  row_blockId :: jsstring

record courseData =
  info :: courseInfo
  structureRows :: "structureRow list"
  textBlocks :: "(jsstring \<times> textBlock) list"
  videoBlocks :: "(jsstring \<times> videoBlock) list"
  problemBlocks :: "(jsstring \<times> problemBlock) list"
  openResponseBlocks :: "(jsstring \<times> openResponseBlock) list"

definition createCourseData :: courseData where
  "createCourseData =
     \<lparr>info = \<lparr>courseName = [], org = [], courseId = [], run = [], language = js ''en'',
               startDate = [], endDate = [], selfPaced = True\<rparr>,
      structureRows = [],
      textBlocks = [],
      videoBlocks = [],
      problemBlocks = [],
      openResponseBlocks = []\<rparr>"

text \<open>\<open>m.has(k)\<close> and \<open>m.get(k)\<close> of a \<open>Map\<close>.\<close>

definition map_has :: "('k \<times> 'v) list \<Rightarrow> 'k \<Rightarrow> bool" where
  "map_has m k = (k \<in> fst ` set m)"

definition map_get :: "('k \<times> 'v) list \<Rightarrow> 'k \<Rightarrow> 'v option" where
  "map_get m k = map_of m k"

subsection \<open>The hierarchy\<close>

record blockRef =
  ref_type :: jsstring
  ref_blockId :: jsstring

record verticalNode =
  vert_name :: jsstring
  vert_id :: jsstring
  vert_blocks :: "blockRef list"

record sequentialNode =
  seq_name :: jsstring
  seq_id :: jsstring
  seq_verticals :: "verticalNode list"

record chapterNode =
  ch_name :: jsstring
  ch_id :: jsstring
  ch_sequentials :: "sequentialNode list"

text \<open>
  \<open>idMap.get(key) || name\<close>: the name stands in when the key is absent, and also when its
  value is the empty string.
\<close>

definition id_or_name :: "(jsstring \<times> jsstring) list \<Rightarrow> jsstring \<Rightarrow> jsstring \<Rightarrow> jsstring" where
  "id_or_name idMap key name =
     (case map_get idMap key of None \<Rightarrow> name | Some v \<Rightarrow> if v = [] then name else v)"

text \<open>
  The temporary maps \<open>chapterMap\<close>, \<open>_seqMap\<close> and \<open>_vertMap\<close> hold, under its name, each
  node of the list beside them: a node enters map and list together, and is changed in
  place afterwards. \<open>update_first\<close> changes the node of a name in the list.
\<close>

fun update_first :: "('a \<Rightarrow> bool) \<Rightarrow> ('a \<Rightarrow> 'a) \<Rightarrow> 'a list \<Rightarrow> 'a list" where
  "update_first P f [] = []"
| "update_first P f (x # xs) = (if P x then f x # xs else x # update_first P f xs)"

definition seqKey :: "structureRow \<Rightarrow> jsstring" where
  "seqKey row = row_chapter row @ js ''|'' @ row_sequential row"

definition vertKey :: "structureRow \<Rightarrow> jsstring" where
  "vertKey row = seqKey row @ js ''|'' @ row_vertical row"

definition add_block :: "structureRow \<Rightarrow> verticalNode \<Rightarrow> verticalNode" where
  "add_block row vert =
     vert\<lparr>vert_blocks := vert_blocks vert
            @ [\<lparr>ref_type = row_blockType row, ref_blockId = row_blockId row\<rparr>]\<rparr>"

definition put_vertical ::
  "(jsstring \<times> jsstring) list \<Rightarrow> structureRow \<Rightarrow> sequentialNode \<Rightarrow> sequentialNode" where
  "put_vertical idMap row sq =
     (let verticals =
        (if row_vertical row \<notin> set (map vert_name (seq_verticals sq))
         then seq_verticals sq
              @ [\<lparr>vert_name = row_vertical row,
                  vert_id = id_or_name idMap (js ''vert:'' @ vertKey row) (row_vertical row),
                  vert_blocks = []\<rparr>]
         else seq_verticals sq)
      in sq\<lparr>seq_verticals :=
              update_first (\<lambda>v. vert_name v = row_vertical row) (add_block row) verticals\<rparr>)"

definition put_sequential ::
  "(jsstring \<times> jsstring) list \<Rightarrow> structureRow \<Rightarrow> chapterNode \<Rightarrow> chapterNode" where
  "put_sequential idMap row ch =
     (let sequentials =
        (if row_sequential row \<notin> set (map seq_name (ch_sequentials ch))
         then ch_sequentials ch
              @ [\<lparr>seq_name = row_sequential row,
                  seq_id = id_or_name idMap (js ''seq:'' @ seqKey row) (row_sequential row),
                  seq_verticals = []\<rparr>]
         else ch_sequentials ch)
      in ch\<lparr>ch_sequentials :=
              update_first (\<lambda>s. seq_name s = row_sequential row) (put_vertical idMap row)
                sequentials\<rparr>)"

definition put_chapter ::
  "(jsstring \<times> jsstring) list \<Rightarrow> structureRow \<Rightarrow> chapterNode list \<Rightarrow> chapterNode list" where
  "put_chapter idMap row chapters =
     (let chapters =
        (if row_chapter row \<notin> set (map ch_name chapters)
         then chapters
              @ [\<lparr>ch_name = row_chapter row,
                  ch_id = id_or_name idMap (js ''ch:'' @ row_chapter row) (row_chapter row),
                  ch_sequentials = []\<rparr>]
         else chapters)
      in update_first (\<lambda>c. ch_name c = row_chapter row) (put_sequential idMap row) chapters)"

text \<open>
  \<open>buildHierarchy(structure, idMap)\<close>: one turn of the loop for each row; the deletion of
  the temporary maps at the end changes nothing here.
\<close>

definition buildHierarchy ::
  "structureRow list \<Rightarrow> (jsstring \<times> jsstring) list \<Rightarrow> chapterNode list" where
  "buildHierarchy rows idMap = fold (put_chapter idMap) rows []"

subsection \<open>The hierarchy as the specification describes it\<close>

text \<open>
  The names of a list in the order of their first occurrence, and the tree given by
  grouping: one chapter for each chapter name, holding one sequential for each sequential
  name among its rows, holding one vertical for each vertical name among those, holding
  the blocks of the rows of that tuple of names in the order of the rows.
\<close>

definition first_occurrences :: "'a list \<Rightarrow> 'a list" where
  "first_occurrences xs = rev (remdups (rev xs))"

definition spec_vertical ::
  "(jsstring \<times> jsstring) list \<Rightarrow> jsstring \<Rightarrow> jsstring \<Rightarrow> jsstring \<Rightarrow> structureRow list
     \<Rightarrow> verticalNode" where
  "spec_vertical idMap c s v rows =
     \<lparr>vert_name = v,
      vert_id = id_or_name idMap (js ''vert:'' @ c @ js ''|'' @ s @ js ''|'' @ v) v,
      vert_blocks = map (\<lambda>r. \<lparr>ref_type = row_blockType r, ref_blockId = row_blockId r\<rparr>) rows\<rparr>"

definition spec_sequential ::
  "(jsstring \<times> jsstring) list \<Rightarrow> jsstring \<Rightarrow> jsstring \<Rightarrow> structureRow list \<Rightarrow> sequentialNode" where
  "spec_sequential idMap c s rows =
     \<lparr>seq_name = s,
      seq_id = id_or_name idMap (js ''seq:'' @ c @ js ''|'' @ s) s,
      seq_verticals =
        map (\<lambda>v. spec_vertical idMap c s v (filter (\<lambda>r. row_vertical r = v) rows))
          (first_occurrences (map row_vertical rows))\<rparr>"

definition spec_chapter ::
  "(jsstring \<times> jsstring) list \<Rightarrow> jsstring \<Rightarrow> structureRow list \<Rightarrow> chapterNode" where
  "spec_chapter idMap c rows =
     \<lparr>ch_name = c,
      ch_id = id_or_name idMap (js ''ch:'' @ c) c,
      ch_sequentials =
        map (\<lambda>s. spec_sequential idMap c s (filter (\<lambda>r. row_sequential r = s) rows))
          (first_occurrences (map row_sequential rows))\<rparr>"

definition spec_hierarchy ::
  "structureRow list \<Rightarrow> (jsstring \<times> jsstring) list \<Rightarrow> chapterNode list" where
  "spec_hierarchy rows idMap =
     map (\<lambda>c. spec_chapter idMap c (filter (\<lambda>r. row_chapter r = c) rows))
       (first_occurrences (map row_chapter rows))"

text \<open>The vertical nodes of a tree under a tuple of names.\<close>

definition verticals_at :: "jsstring \<Rightarrow> jsstring \<Rightarrow> jsstring \<Rightarrow> chapterNode list \<Rightarrow> verticalNode list" where
  "verticals_at c s v tree =
     concat (map (\<lambda>ch. concat (map (\<lambda>sq. filter (\<lambda>vt. vert_name vt = v) (seq_verticals sq))
                                  (filter (\<lambda>sq. seq_name sq = s) (ch_sequentials ch))))
                 (filter (\<lambda>ch. ch_name ch = c) tree))"

section \<open>parser.js\<close>

subsection \<open>Strings\<close>

text \<open>
  \<open>toLowerCase\<close> and \<open>toUpperCase\<close>. On a string of ASCII characters they change the
  letters of ASCII and nothing else. On any other string they follow the case tables of
  Unicode, which are parameters here: the two fields of \<open>unicode\<close>.
\<close>

record unicode =
  lowerCase :: "jsstring \<Rightarrow> jsstring"
  upperCase :: "jsstring \<Rightarrow> jsstring"

definition isAscii :: "jschar \<Rightarrow> bool" where
  "isAscii c = (c < 0x80)"

definition asciiLower :: "jschar \<Rightarrow> jschar" where
  "asciiLower c = (if 0x41 \<le> c \<and> c \<le> 0x5A then c + 0x20 else c)"

definition asciiUpper :: "jschar \<Rightarrow> jschar" where
  "asciiUpper c = (if 0x61 \<le> c \<and> c \<le> 0x7A then c - 0x20 else c)"

definition toLowerCase :: "unicode \<Rightarrow> jsstring \<Rightarrow> jsstring" where
  "toLowerCase u s = (if list_all isAscii s then map asciiLower s else lowerCase u s)"

definition toUpperCase :: "unicode \<Rightarrow> jsstring \<Rightarrow> jsstring" where
  "toUpperCase u s = (if list_all isAscii s then map asciiUpper s else upperCase u s)"

text \<open>\<open>str.replace(/\s+/g, rep)\<close>: every maximal run of white space becomes \<open>rep\<close>.\<close>

function replaceSpaces :: "jsstring \<Rightarrow> jsstring \<Rightarrow> jsstring" where
  "replaceSpaces rep [] = []"
| "replaceSpaces rep (c # cs) =
     (if isWhiteSpace c then rep @ replaceSpaces rep (dropWhile isWhiteSpace cs)
      else c # replaceSpaces rep cs)"
  by pat_completeness auto
termination
  by (relation "measure (\<lambda>(rep, s). length s)")
     (auto simp: less_Suc_eq_le length_dropWhile_le)

text \<open>
  \<open>str.split(/[...]+/)\<close> for a class of separator characters: the pieces between the
  maximal runs of separators; a run at either end leaves an empty piece there.
\<close>

function splitRuns :: "(jschar \<Rightarrow> bool) \<Rightarrow> jsstring \<Rightarrow> jsstring list" where
  "splitRuns P [] = [[]]"
| "splitRuns P (c # cs) =
     (if P c then [] # splitRuns P (dropWhile P cs)
      else (case splitRuns P cs of t # ts \<Rightarrow> (c # t) # ts | [] \<Rightarrow> [[c]]))"
  by pat_completeness auto
termination
  by (relation "measure (\<lambda>(P, s). length s)")
     (auto simp: less_Suc_eq_le length_dropWhile_le)

text \<open>The decimal digits of a number, as in a template literal.\<close>

fun toDecimal :: "nat \<Rightarrow> jsstring" where
  "toDecimal n = (if n < 10 then [of_nat (48 + n)] else toDecimal (n div 10) @ [of_nat (48 + n mod 10)])"

declare toDecimal.simps [simp del]

text \<open>
  \<open>parseInt(str)\<close> without a radix: white space, an optional sign, then hexadecimal digits
  after \<open>0x\<close> or \<open>0X\<close> and decimal digits otherwise; \<open>None\<close> is \<open>NaN\<close>. The value is the
  double nearest to the integer that the digits denote, an infinity beyond the largest
  double. (The negative zero of \<open>-0\<close> is the zero here: the program tests and prints it as
  zero.)
\<close>

definition digitValue :: "jschar \<Rightarrow> nat option" where
  "digitValue c =
     (if 0x30 \<le> c \<and> c \<le> 0x39 then Some (unat c - 0x30)
      else if 0x61 \<le> c \<and> c \<le> 0x7A then Some (unat c - 0x61 + 10)
      else if 0x41 \<le> c \<and> c \<le> 0x5A then Some (unat c - 0x41 + 10)
      else None)"

definition isDigitOf :: "nat \<Rightarrow> jschar \<Rightarrow> bool" where
  "isDigitOf radix c = (case digitValue c of None \<Rightarrow> False | Some d \<Rightarrow> d < radix)"

definition parseInt :: "jsstring \<Rightarrow> number option" where
  "parseInt str =
     (let s = dropWhile isWhiteSpace str;
          neg = (s \<noteq> [] \<and> hd s = of_char CHR ''-'');
          s = (if s \<noteq> [] \<and> (hd s = of_char CHR ''-'' \<or> hd s = of_char CHR ''+'') then tl s else s);
          hex = (prefix (js ''0x'') s \<or> prefix (js ''0X'') s);
          radix = (if hex then 16 else 10);
          s = (if hex then drop 2 s else s);
          ds = takeWhile (isDigitOf radix) s
      in if ds = [] then None
         else (case roundToDouble (fold (\<lambda>d acc. acc * radix + the (digitValue d)) ds 0) of
                 Some v \<Rightarrow> Some (Finite ((if neg then - 1 else 1) * int v))
               | None \<Rightarrow> Some (if neg then NegativeInfinity else PositiveInfinity)))"

subsection \<open>The workbook\<close>

text \<open>
  The workbook as the library hands it over. The value of a cell is \<open>null\<close>, a rich text
  (the texts of its runs), a date (given by its \<open>toISOString()\<close>), an object with a
  \<open>result\<close> (given by \<open>String(v.result)\<close>), or anything else (given by \<open>String(v)\<close>). A row
  holds its cells by column number, a sheet its rows by row number, both in increasing
  order and without the empty ones, as \<open>eachCell\<close> and \<open>eachRow\<close> visit them.
\<close>

datatype cell = CNull | CRichText "jsstring list" | CDate jsstring | CResult jsstring | CPlain jsstring

type_synonym xlrow = "(nat \<times> cell) list"



definition getCell :: "xlrow \<Rightarrow> nat \<Rightarrow> cell" where
  "getCell row colNumber = (case map_of row colNumber of None \<Rightarrow> CNull | Some c \<Rightarrow> c)"


definition cellValue :: "cell \<Rightarrow> jsstring" where
  "cellValue c =
     (case c of
        CNull \<Rightarrow> []
      | CRichText runs \<Rightarrow> trim (concat runs)
      | CDate isoString \<Rightarrow> hd (split_on (of_char CHR ''T'') isoString)
      | CResult r \<Rightarrow> trim r
      | CPlain s \<Rightarrow> trim s)"



text \<open>A plain object with string values: a map from property names.\<close>

type_synonym rowObject = "jsstring \<rightharpoonup> jsstring"

definition rowToObject :: "xlrow \<Rightarrow> (nat \<times> jsstring) list \<Rightarrow> rowObject" where
  "rowToObject row headers =
     fold (\<lambda>(colNumber, headerName) obj. obj(headerName \<mapsto> cellValue (getCell row colNumber)))
       headers Map.empty"

definition objStr :: "unicode \<Rightarrow> rowObject \<Rightarrow> jsstring \<Rightarrow> jsstring" where
  "objStr u row key =
     (let lowerKey = replaceSpaces (js ''_'') (toLowerCase u key)
      in case row lowerKey of Some v \<Rightarrow> trim v
         | None \<Rightarrow> (case row key of Some v \<Rightarrow> trim v | None \<Rightarrow> []))"

subsection \<open>\<open>parseWorkbook\<close>\<close>

text \<open>
  \<open>x || d\<close> for a string \<open>x\<close> that may be \<open>undefined\<close>, and a string between double
  quotes.
\<close>

definition or_default :: "jsstring option \<Rightarrow> jsstring \<Rightarrow> jsstring" where
  "or_default x d = (case x of None \<Rightarrow> d | Some v \<Rightarrow> if v = [] then d else v)"

definition quoted :: "jsstring \<Rightarrow> jsstring" where
  "quoted s = [dquote] @ s @ [dquote]"

text \<open>
  The state of the decoder is the model and the list of errors. Each sheet is read by a
  callback of \<open>eachRow\<close>, a function of the row and the state here; \<open>return\<close> in the
  callback ends the turn for that row.
\<close>

type_synonym parseState = "courseData \<times> jsstring list"



definition requiredError :: "jsstring \<Rightarrow> nat \<Rightarrow> jsstring \<Rightarrow> jsstring" where
  "requiredError sheet rowNumber field =
     sheet @ js '' row '' @ toDecimal rowNumber @ js '': '' @ quoted field @ js '' is required.''"




text \<open>
  The Problems sheet. The separators of the \<open>correct\<close> column are those of
  \<open>/[,;\s]+/\<close>; \<open>correctSet\<close> holds the pieces that pass \<open>filter(Boolean)\<close>.
\<close>

definition choiceLetters :: "jsstring list" where
  "choiceLetters = [js ''a'', js ''b'', js ''c'', js ''d'', js ''e'', js ''f'']"

definition isCorrectSeparator :: "jschar \<Rightarrow> bool" where
  "isCorrectSeparator c = (c = of_char CHR '','' \<or> c = of_char CHR '';'' \<or> isWhiteSpace c)"

definition correctSet :: "unicode \<Rightarrow> rowObject \<Rightarrow> jsstring set" where
  "correctSet u r =
     (let correctRaw = toUpperCase u (objStr u r (js ''correct''))
      in set (filter (\<lambda>t. t \<noteq> []) (splitRuns isCorrectSeparator correctRaw)))"

definition readChoices :: "unicode \<Rightarrow> rowObject \<Rightarrow> choice list" where
  "readChoices u r =
     concat (map (\<lambda>letter.
                    (let txt = objStr u r (js ''choice_'' @ letter)
                     in if txt = [] then []
                        else [\<lparr>choice_text = txt,
                               choice_correct = (toUpperCase u letter \<in> correctSet u r),
                               choice_hint = objStr u r (js ''hint_'' @ letter)\<rparr>]))
             choiceLetters)"

definition readProblemRow ::
  "unicode \<Rightarrow> (nat \<times> jsstring) list \<Rightarrow> nat \<times> xlrow \<Rightarrow> parseState \<Rightarrow> parseState" where
  "readProblemRow u headers = (\<lambda>(rowNumber, row) (data, errors).
     if rowNumber = 1 then (data, errors)
     else
       (let r = rowToObject row headers;
            blockId = objStr u r (js ''block_id'')
        in if blockId = []
           then (data, errors @ [requiredError (js ''Problems'') rowNumber (js ''block_id'')])
           else
             (let choices = readChoices u r
              in if length choices < 2
                 then (data, errors @ [js ''Problems row '' @ toDecimal rowNumber
                                        @ js '': At least 2 choices are required.''])
                 else if \<not> list_ex choice_correct choices
                 then (data, errors @ [js ''Problems row '' @ toDecimal rowNumber
                                        @ js '': No correct answer specified.''])
                 else (data\<lparr>problemBlocks := map_set (problemBlocks data) blockId
                              \<lparr>problem_blockId = blockId,
                               problem_title = or_default (Some (objStr u r (js ''title''))) blockId,
                               questionText = objStr u r (js ''question_text''),
                               choices = choices,
                               explanation = objStr u r (js ''explanation''),
                               showAnswer = or_default (Some (objStr u r (js ''show_answer'')))
                                              (js ''attempted'')\<rparr>\<rparr>,
                       errors))))"












text \<open>
  Case tables for concrete inputs of ASCII characters, where the tables of Unicode are
  never consulted.
\<close>

definition ascii_only :: unicode where
  "ascii_only = \<lparr>lowerCase = (\<lambda>s. s), upperCase = (\<lambda>s. s)\<rparr>"


subsection \<open>The letter list of the correct column\<close>





subsection \<open>The rows of the Structure sheet\<close>







section \<open>The generators\<close>

text \<open>
  A generator returns a \<open>Map\<close> of files; \<open>files.set\<close> is \<open>map_set\<close>. In the template
  literals of the source an attribute value stands between double quotes: \<open>quoted\<close>.
\<close>

subsection \<open>generators/course.js\<close>

text \<open>
  \<open>JSON.stringify\<close> of a string: the escapes of the quote, the backslash and the control
  characters; a surrogate without its partner is written as \<open>\uXXXX\<close>.
\<close>

definition backslash :: jschar where
  "backslash = 92"

definition hexDigit :: "nat \<Rightarrow> jschar" where
  "hexDigit n = (if n < 10 then of_nat (48 + n) else of_nat (87 + n))"

definition unicodeEscape :: "jschar \<Rightarrow> jsstring" where
  "unicodeEscape c =
     [backslash] @ js ''u'' @ [hexDigit (unat c div 4096), hexDigit (unat c div 256 mod 16),
                  hexDigit (unat c div 16 mod 16), hexDigit (unat c mod 16)]"

definition isHighSurrogate :: "jschar \<Rightarrow> bool" where
  "isHighSurrogate c = (0xD800 \<le> c \<and> c \<le> 0xDBFF)"

definition isLowSurrogate :: "jschar \<Rightarrow> bool" where
  "isLowSurrogate c = (0xDC00 \<le> c \<and> c \<le> 0xDFFF)"

definition jsonEscapeChar :: "jschar \<Rightarrow> jsstring" where
  "jsonEscapeChar c =
     (if c = 0x08 then [backslash] @ js ''b''
      else if c = 0x09 then [backslash] @ js ''t''
      else if c = 0x0A then [backslash] @ js ''n''
      else if c = 0x0C then [backslash] @ js ''f''
      else if c = 0x0D then [backslash] @ js ''r''
      else if c = dquote then [backslash, dquote]
      else if c = backslash then [backslash, backslash]
      else if c < 0x20 \<or> isLowSurrogate c \<or> isHighSurrogate c then unicodeEscape c
      else [c])"

fun jsonQuoteBody :: "jsstring \<Rightarrow> jsstring" where
  "jsonQuoteBody [] = []"
| "jsonQuoteBody [c] = jsonEscapeChar c"
| "jsonQuoteBody (c # d # cs) =
     (if isHighSurrogate c \<and> isLowSurrogate d then c # d # jsonQuoteBody cs
      else jsonEscapeChar c @ jsonQuoteBody (d # cs))"

definition jsonString :: "jsstring \<Rightarrow> jsstring" where
  "jsonString s = quoted (jsonQuoteBody s)"

text \<open>The lines of \<open>JSON.stringify(value, null, 4)\<close> are joined by line feeds.\<close>

definition unlines :: "jsstring list \<Rightarrow> jsstring" where
  "unlines ls = join_with [0x0A] ls"

definition policyJson :: "(jsstring \<Rightarrow> jsstring option) \<Rightarrow> courseInfo \<Rightarrow> jsstring \<Rightarrow> jsstring" where
  "policyJson toISO i runName =
     unlines
       ([js ''{'',
         js ''    '' @ jsonString (js ''course/'' @ runName) @ js '': {'',
         js ''        '' @ jsonString (js ''display_name'') @ js '': '' @ jsonString (courseName i) @ js '','',
         js ''        '' @ jsonString (js ''language'') @ js '': '' @ jsonString (language i) @ js '','',
         js ''        '' @ jsonString (js ''self_paced'') @ js '': ''
           @ (if selfPaced i then js ''true'' else js ''false'') @ js '','']
        @ (if startDate i \<noteq> []
           then [js ''        '' @ jsonString (js ''start'') @ js '': ''
                 @ jsonString (formatEdxDate toISO (startDate i)) @ js '','']
           else [])
        @ (if endDate i \<noteq> []
           then [js ''        '' @ jsonString (js ''end'') @ js '': ''
                 @ jsonString (formatEdxDate toISO (endDate i)) @ js '','']
           else [])
        @ [js ''        '' @ jsonString (js ''tabs'') @ js '': ['']
        @ concat (map (\<lambda>(name, type, last).
                    [js ''            {'',
                     js ''                '' @ jsonString (js ''course_staff_only'') @ js '': false,'',
                     js ''                '' @ jsonString (js ''name'') @ js '': '' @ jsonString name @ js '','',
                     js ''                '' @ jsonString (js ''type'') @ js '': '' @ jsonString type,
                     js ''            }'' @ (if last then [] else js '','')])
                  [(js ''Course'', js ''courseware'', False),
                   (js ''Progress'', js ''progress'', False),
                   (js ''Dates'', js ''dates'', False),
                   (js ''Discussion'', js ''discussion'', True)])
        @ [js ''        ]'',
           js ''    }'',
           js ''}''])"

definition gradingPolicyJson :: jsstring where
  "gradingPolicyJson =
     unlines
       ([js ''{'',
         js ''    '' @ jsonString (js ''GRADER'') @ js '': ['']
        @ concat (map (\<lambda>(short, type, last).
                    [js ''        {'',
                     js ''            '' @ jsonString (js ''drop_count'') @ js '': 0,'',
                     js ''            '' @ jsonString (js ''min_count'') @ js '': 1,'',
                     js ''            '' @ jsonString (js ''short_label'') @ js '': '' @ jsonString short @ js '','',
                     js ''            '' @ jsonString (js ''type'') @ js '': '' @ jsonString type @ js '','',
                     js ''            '' @ jsonString (js ''weight'') @ js '': 0.5'',
                     js ''        }'' @ (if last then [] else js '','')])
                  [(js ''HW'', js ''Homework'', False), (js ''Final'', js ''Final Exam'', True)])
        @ [js ''    ],'',
           js ''    '' @ jsonString (js ''GRADE_CUTOFFS'') @ js '': {'',
           js ''        '' @ jsonString (js ''Pass'') @ js '': 0.5'',
           js ''    }'',
           js ''}''])"

text \<open>
  \<open>generateCourse(info, chapters)\<close>. \<open>courseRunXml\<close> is the text of \<open>course/{run}.xml\<close>.
\<close>

definition courseRunXml ::
  "(jsstring \<Rightarrow> jsstring option) \<Rightarrow> courseInfo \<Rightarrow> chapterNode list \<Rightarrow> jsstring" where
  "courseRunXml toISO i chapters =
     (let selfPacedAttr = (if selfPaced i then js '' self_paced='' @ quoted (js ''true'') else []);
          startAttr = (if startDate i \<noteq> []
                       then js '' start='' @ quoted (esc (formatEdxDate toISO (startDate i))) else []);
          endAttr = (if endDate i \<noteq> []
                     then js '' end='' @ quoted (esc (formatEdxDate toISO (endDate i))) else [])
      in js ''<course display_name='' @ quoted (esc (courseName i))
         @ js '' language='' @ quoted (esc (language i))
         @ selfPacedAttr @ startAttr @ endAttr @ js ''>'' @ [0x0A]
         @ concat (map (\<lambda>ch. js ''  <chapter url_name='' @ quoted (esc (ch_id ch)) @ js ''/>'' @ [0x0A])
                     chapters)
         @ js ''</course>'' @ [0x0A])"

definition generateCourse ::
  "(jsstring \<Rightarrow> jsstring option) \<Rightarrow> courseInfo \<Rightarrow> chapterNode list \<Rightarrow> files" where
  "generateCourse toISO i chapters =
     (let runName = (if run i \<noteq> [] then run i else js ''course_run'');
          files = [];
          files = map_set files (js ''course.xml'')
                    (js ''<course url_name='' @ quoted (esc runName)
                     @ js '' org='' @ quoted (esc (org i))
                     @ js '' course='' @ quoted (esc (courseId i)) @ js ''/>'' @ [0x0A]);
          files = map_set files (js ''course/'' @ runName @ js ''.xml'')
                    (courseRunXml toISO i chapters);
          files = map_set files (js ''policies/'' @ runName @ js ''/policy.json'')
                    (policyJson toISO i runName @ [0x0A]);
          files = map_set files (js ''policies/'' @ runName @ js ''/grading_policy.json'')
                    (gradingPolicyJson @ [0x0A])
      in files)"

subsection \<open>generators/chapter.js, sequential.js, vertical.js\<close>

definition generateChapters :: "chapterNode list \<Rightarrow> files" where
  "generateChapters chapters =
     fold (\<lambda>ch files.
             map_set files (js ''chapter/'' @ ch_id ch @ js ''.xml'')
               (js ''<chapter display_name='' @ quoted (esc (ch_name ch)) @ js ''>'' @ [0x0A]
                @ concat (map (\<lambda>sq. js ''  <sequential url_name='' @ quoted (esc (seq_id sq))
                                      @ js ''/>'' @ [0x0A])
                            (ch_sequentials ch))
                @ js ''</chapter>'' @ [0x0A]))
       chapters []"

definition generateSequentials :: "chapterNode list \<Rightarrow> files" where
  "generateSequentials chapters =
     fold (\<lambda>sq files.
             map_set files (js ''sequential/'' @ seq_id sq @ js ''.xml'')
               (js ''<sequential display_name='' @ quoted (esc (seq_name sq)) @ js ''>'' @ [0x0A]
                @ concat (map (\<lambda>vt. js ''  <vertical url_name='' @ quoted (esc (vert_id vt))
                                      @ js ''/>'' @ [0x0A])
                            (seq_verticals sq))
                @ js ''</sequential>'' @ [0x0A]))
       (concat (map ch_sequentials chapters)) []"

text \<open>
  \<open>BLOCK_TYPE_TAG[block.type] || block.type\<close>. The table is a plain object, so a type that
  names a property of \<open>Object.prototype\<close>, such as \<open>constructor\<close>, finds that property in it.
  The parameter \<open>inherited\<close> stands for \<open>Object.prototype\<close>: \<open>inherited t\<close> is the text that the
  property named \<open>t\<close> gives in the template literal, and \<open>None\<close> when there is no such
  property.
\<close>

definition blockTypeTag :: "(jsstring \<Rightarrow> jsstring option) \<Rightarrow> jsstring \<Rightarrow> jsstring" where
  "blockTypeTag inherited t =
     (if t = js ''text'' then js ''html''
      else if t = js ''video'' then js ''video''
      else if t = js ''problem'' then js ''problem''
      else if t = js ''openresponse'' then js ''openassessment''
      else (case inherited t of Some s \<Rightarrow> s | None \<Rightarrow> t))"

definition generateVerticals :: "(jsstring \<Rightarrow> jsstring option) \<Rightarrow> chapterNode list \<Rightarrow> files" where
  "generateVerticals inherited chapters =
     fold (\<lambda>vt files.
             map_set files (js ''vertical/'' @ vert_id vt @ js ''.xml'')
               (js ''<vertical display_name='' @ quoted (esc (vert_name vt)) @ js ''>'' @ [0x0A]
                @ concat (map (\<lambda>b. js ''  <'' @ blockTypeTag inherited (ref_type b) @ js '' url_name=''
                                     @ quoted (esc (ref_blockId b)) @ js ''/>'' @ [0x0A])
                            (vert_blocks vt))
                @ js ''</vertical>'' @ [0x0A]))
       (concat (map seq_verticals (concat (map ch_sequentials chapters)))) []"


subsection \<open>generators/html.js\<close>

definition seqs :: "rx list \<Rightarrow> rx" where
  "seqs rs = foldr Seq rs Eps"

text \<open>
  \<open>textToHtml(text)\<close> of utils.js, with its expressions \<open>/<[a-z][\s\S]*>/i\<close> and \<open>/\n\n+/\<close>.
  Under the flag \<open>i\<close> the class \<open>[a-z]\<close> holds the letters of ASCII in both cases, and no
  other character.
\<close>

definition htmlRx :: rx where
  "htmlRx = seqs [Chr (of_char CHR ''<''), Cls isAsciiLetter, Star True anyChar, Chr (of_char CHR ''>'')]"

definition paragraphRx :: rx where
  "paragraphRx = seqs [Chr 0x0A, Plus (Chr 0x0A)]"

definition textToHtml :: "jsstring \<Rightarrow> jsstring" where
  "textToHtml text =
     (if text = [] then []
      else if rx_test htmlRx text then text
      else join_with [0x0A]
             (map (\<lambda>p. js ''<p>'' @ replaceAll [0x0A] (js ''<br/>'') p @ js ''</p>'')
                (rx_split paragraphRx text)))"

definition generateHtmlBlocks :: "(jsstring \<times> textBlock) list \<Rightarrow> files" where
  "generateHtmlBlocks blocks =
     fold (\<lambda>(blockId, block) files.
             (let files = map_set files (js ''html/'' @ blockId @ js ''.xml'')
                            (js ''<html filename='' @ quoted (esc blockId)
                             @ js '' display_name='' @ quoted (esc (text_title block))
                             @ js ''/>'' @ [0x0A]);
                  htmlContent = textToHtml (text_content block)
              in map_set files (js ''html/'' @ blockId @ js ''.html'') (htmlContent @ [0x0A])))
       blocks []"

subsection \<open>generators/video.js\<close>

definition generateVideoBlocks :: "(jsstring \<times> videoBlock) list \<Rightarrow> files" where
  "generateVideoBlocks blocks =
     fold (\<lambda>(blockId, block) files.
             (let attrs = [js ''url_name='' @ quoted (esc blockId),
                           js ''display_name='' @ quoted (esc (video_title block))]
                    @ (if youtubeId block \<noteq> []
                       then [js ''youtube='' @ quoted (js ''1.00:'' @ esc (youtubeId block)),
                             js ''youtube_id_1_0='' @ quoted (esc (youtubeId block))]
                       else [])
                    @ (if html5Url block \<noteq> []
                       then [js ''html5_sources=''
                             @ quoted (js ''[&quot;'' @ esc (html5Url block) @ js ''&quot;]'')]
                       else [js ''html5_sources='' @ quoted (js ''[]'')])
                    @ [js ''start_time=''
                       @ quoted (esc (or_default (Some (startTime block)) (js ''00:00:00''))),
                       js ''end_time=''
                       @ quoted (esc (or_default (Some (endTime block)) (js ''00:00:00''))),
                       js ''edx_video_id='' @ quoted []]
              in map_set files (js ''video/'' @ blockId @ js ''.xml'')
                   (js ''<video '' @ join_with (js '' '') attrs @ js ''/>'' @ [0x0A])))
       blocks []"

subsection \<open>generators/problem.js\<close>

definition choiceXml :: "choice \<Rightarrow> jsstring" where
  "choiceXml c =
     js ''    <choice correct='' @ quoted (if choice_correct c then js ''true'' else js ''false'')
     @ js ''>'' @ esc (choice_text c)
     @ (if choice_hint c \<noteq> []
        then js '' <choicehint>'' @ esc (choice_hint c) @ js ''</choicehint>'' else [])
     @ [0x0A] @ js ''</choice>'' @ [0x0A]"

definition problemXml :: "problemBlock \<Rightarrow> jsstring" where
  "problemXml block =
     js ''<problem display_name='' @ quoted (esc (problem_title block))
     @ js '' showanswer='' @ quoted (esc (showAnswer block)) @ js ''>'' @ [0x0A]
     @ js ''<multiplechoiceresponse>'' @ [0x0A]
     @ js ''  <label>'' @ esc (questionText block) @ js ''</label>'' @ [0x0A]
     @ js ''<choicegroup type='' @ quoted (js ''MultipleChoice'') @ js ''>'' @ [0x0A]
     @ concat (map choiceXml (choices block))
     @ js ''  </choicegroup>'' @ [0x0A]
     @ (if explanation block \<noteq> []
        then js ''<solution>'' @ [0x0A]
             @ js ''<div class='' @ quoted (js ''detailed-solution'') @ js ''>'' @ [0x0A]
             @ js ''<p>Explanation</p>'' @ [0x0A]
             @ js ''<p>'' @ esc (explanation block) @ js ''</p>'' @ [0x0A]
             @ js ''</div>'' @ [0x0A]
             @ js ''</solution>'' @ [0x0A]
        else [])
     @ js ''</multiplechoiceresponse>'' @ [0x0A]
     @ js ''</problem>'' @ [0x0A]"

definition generateProblemBlocks :: "(jsstring \<times> problemBlock) list \<Rightarrow> files" where
  "generateProblemBlocks blocks =
     fold (\<lambda>(blockId, block) files.
             map_set files (js ''problem/'' @ blockId @ js ''.xml'') (problemXml block))
       blocks []"

subsection \<open>generators/openresponse.js\<close>

text \<open>
  A number in a template literal, \<open>Number.prototype.toString\<close>. The digits are the fewest
  digits \<open>s\<close> (at most 17) such that \<open>s\<close> times its power of ten is read back as the same
  double, and of two such \<open>s\<close> the nearer one. Below \<open>10 ^ 21\<close> they are followed by the
  zeros that are left; from there on the number is in the exponent notation.
\<close>

definition shortestDigits :: "nat \<Rightarrow> nat \<Rightarrow> nat list" where
  "shortestDigits x k =
     (let p = 10 ^ (length (toDecimal x) - k);
          s = x div p;
          ok = (\<lambda>s. roundToDouble (s * p) = roundToDouble x \<and> 10 ^ (k - 1) \<le> s \<and> s < 10 ^ k)
      in filter ok (if 2 * (x mod p) \<le> p then [s, s + 1] else [s + 1, s]))"

definition magnitudeToString :: "nat \<Rightarrow> jsstring" where
  "magnitudeToString x =
     (case concat (map (shortestDigits x) [1 ..< 18]) of
        [] \<Rightarrow> toDecimal x
      | s # _ \<Rightarrow>
          (let n = length (toDecimal x);
               ds = toDecimal s
           in if n \<le> 21 then ds @ replicate (n - length ds) (of_char CHR ''0'')
              else [hd ds] @ (if tl ds = [] then [] else js ''.'' @ tl ds)
                   @ js ''e+'' @ toDecimal (n - 1)))"

definition numberToString :: "number \<Rightarrow> jsstring" where
  "numberToString v =
     (case v of
        PositiveInfinity \<Rightarrow> js ''Infinity''
      | NegativeInfinity \<Rightarrow> js ''-Infinity''
      | Finite n \<Rightarrow> (if n < 0 then js ''-'' else []) @ magnitudeToString (nat \<bar>n\<bar>))"

definition optionXml :: "criterionOption \<Rightarrow> jsstring" where
  "optionXml opt =
     js ''      <option points='' @ quoted (numberToString (option_points opt)) @ js ''>'' @ [0x0A]
     @ js ''        <name>'' @ esc (option_label opt) @ js ''</name>'' @ [0x0A]
     @ js ''        <label>'' @ esc (option_label opt) @ js ''</label>'' @ [0x0A]
     @ js ''        <explanation>'' @ esc (option_label opt) @ js '' level performance</explanation>''
     @ [0x0A]
     @ js ''      </option>'' @ [0x0A]"

definition criterionXml :: "criterion \<Rightarrow> jsstring" where
  "criterionXml cr =
     js ''    <criterion>'' @ [0x0A]
     @ js ''      <name>'' @ esc (criterion_name cr) @ js ''</name>'' @ [0x0A]
     @ js ''      <label>'' @ esc (criterion_name cr) @ js ''</label>'' @ [0x0A]
     @ js ''      <prompt>'' @ esc (criterion_name cr) @ js ''</prompt>'' @ [0x0A]
     @ concat (map optionXml (criterion_options cr))
     @ js ''    </criterion>'' @ [0x0A]"

definition openResponseXml :: "jsstring \<Rightarrow> openResponseBlock \<Rightarrow> jsstring" where
  "openResponseXml blockId block =
     js ''<openassessment url_name='' @ quoted (esc blockId)
     @ js '' display_name='' @ quoted (esc (ora_title block))
     @ js '' submission_due='' @ quoted (js ''2099-01-01T00:00:00Z'')
     @ js '' submission_start='' @ quoted (js ''2000-01-01T00:00:00Z'') @ js ''>'' @ [0x0A]
     @ js ''  <title>'' @ esc (ora_title block) @ js ''</title>'' @ [0x0A]
     @ js ''  <prompt>'' @ [0x0A]
     @ js ''    <description>'' @ esc (ora_prompt block) @ js ''</description>'' @ [0x0A]
     @ js ''  </prompt>'' @ [0x0A]
     @ js ''  <rubric>'' @ [0x0A]
     @ concat (map criterionXml (criteria block))
     @ js ''  </rubric>'' @ [0x0A]
     @ js ''  <assessments>'' @ [0x0A]
     @ (if assessmentType block = js ''peer''
        then js ''    <assessment name='' @ quoted (js ''peer-assessment'')
             @ js '' must_grade='' @ quoted (js ''5'')
             @ js '' must_be_graded_by='' @ quoted (js ''3'') @ js ''/>'' @ [0x0A]
        else [])
     @ (if assessmentType block = js ''self'' \<or> assessmentType block = js ''peer''
        then js ''    <assessment name='' @ quoted (js ''self-assessment'') @ js ''/>'' @ [0x0A]
        else [])
     @ (if assessmentType block = js ''staff''
        then js ''    <assessment name='' @ quoted (js ''staff-assessment'')
             @ js '' required='' @ quoted (js ''true'') @ js ''/>'' @ [0x0A]
        else [])
     @ js ''  </assessments>'' @ [0x0A]
     @ js ''</openassessment>'' @ [0x0A]"

definition generateOpenResponseBlocks :: "(jsstring \<times> openResponseBlock) list \<Rightarrow> files" where
  "generateOpenResponseBlocks blocks =
     fold (\<lambda>(blockId, block) files.
             map_set files (js ''openassessment/'' @ blockId @ js ''.xml'')
               (openResponseXml blockId block))
       blocks []"

subsection \<open>main.js: the export\<close>

text \<open>
  The handler of the export button: the maps of the generators are merged into one map,
  a later file of a path replacing the earlier one in its place, and the map is packed.
  The model and the hierarchy are the two variables of the page.
\<close>

definition merge :: "files \<Rightarrow> files \<Rightarrow> files" where
  "merge allFiles fileMap = fold (\<lambda>(path, content) m. map_set m path content) fileMap allFiles"

definition exportFiles ::
  "(jsstring \<Rightarrow> jsstring option) \<Rightarrow> (jsstring \<Rightarrow> jsstring option) \<Rightarrow> courseData
     \<Rightarrow> chapterNode list \<Rightarrow> files" where
  "exportFiles toISO inherited data hierarchy =
     (let allFiles = [];
          allFiles = merge allFiles (generateCourse toISO (info data) hierarchy);
          allFiles = merge allFiles (generateChapters hierarchy);
          allFiles = merge allFiles (generateSequentials hierarchy);
          allFiles = merge allFiles (generateVerticals inherited hierarchy);
          allFiles = merge allFiles (generateHtmlBlocks (textBlocks data));
          allFiles = merge allFiles (generateVideoBlocks (videoBlocks data));
          allFiles = merge allFiles (generateProblemBlocks (problemBlocks data));
          allFiles = merge allFiles (generateOpenResponseBlocks (openResponseBlocks data))
      in allFiles)"

definition exportArchive ::
  "(byte list \<Rightarrow> byte list) \<Rightarrow> (jsstring \<Rightarrow> byte list) \<Rightarrow> nat \<Rightarrow> (jsstring \<Rightarrow> jsstring option)
     \<Rightarrow> (jsstring \<Rightarrow> jsstring option) \<Rightarrow> courseData \<Rightarrow> chapterNode list \<Rightarrow> byte list" where
  "exportArchive gzipSync encode mtime toISO inherited data hierarchy =
     generateTarGz gzipSync encode mtime (exportFiles toISO inherited data hierarchy)"


subsection \<open>main.js: the ids of the hierarchy\<close>

text \<open>
  \<open>sanitizeUrlName(str)\<close> of utils.js: lower case, every character outside \<open>[a-z0-9_-]\<close>
  turned into an underscore, the runs of underscores into one, an underscore at the start
  and one at the end taken away (\<open>/^_|_$/g\<close>), and the first 60 characters of the rest.
\<close>

definition isUrlNameChar :: "jschar \<Rightarrow> bool" where
  "isUrlNameChar c =
     ((0x61 \<le> c \<and> c \<le> 0x7A) \<or> (0x30 \<le> c \<and> c \<le> 0x39) \<or> c = of_char CHR ''_''
      \<or> c = of_char CHR ''-'')"

definition stripUnderscores :: "jsstring \<Rightarrow> jsstring" where
  "stripUnderscores s =
     (let a = (if s \<noteq> [] \<and> hd s = of_char CHR ''_'' then tl s else s)
      in if a \<noteq> [] \<and> last a = of_char CHR ''_'' then butlast a else a)"

definition sanitizeUrlName :: "unicode \<Rightarrow> jsstring \<Rightarrow> jsstring" where
  "sanitizeUrlName u str =
     take 60
       (stripUnderscores
          (rx_replace (Plus (Chr (of_char CHR ''_''))) (js ''_'')
             (map (\<lambda>c. if isUrlNameChar c then c else of_char CHR ''_'') (toLowerCase u str))))"

text \<open>
  The loop of \<open>handleFile\<close> that gives an id to every chapter, sequential and vertical
  of the structure: the sanitized name, an underscore, and the first 8 characters of a
  fresh \<open>generateId()\<close>. The random ids are a parameter: \<open>gen n\<close> is the result of the
  call number \<open>n\<close> of \<open>generateId()\<close>. The state of the loop is the map and the number of
  calls made.
\<close>

definition newId ::
  "unicode \<Rightarrow> (nat \<Rightarrow> jsstring) \<Rightarrow> jsstring \<Rightarrow> jsstring
     \<Rightarrow> (jsstring \<times> jsstring) list \<times> nat \<Rightarrow> (jsstring \<times> jsstring) list \<times> nat" where
  "newId u gen key name = (\<lambda>(idMap, n).
     if map_has idMap key then (idMap, n)
     else (map_set idMap key (sanitizeUrlName u name @ js ''_'' @ take 8 (gen n)), n + 1))"

definition makeIdMap ::
  "unicode \<Rightarrow> (nat \<Rightarrow> jsstring) \<Rightarrow> structureRow list \<Rightarrow> (jsstring \<times> jsstring) list" where
  "makeIdMap u gen rows =
     fst (fold (\<lambda>row st.
                  (let st = newId u gen (js ''ch:'' @ row_chapter row) (row_chapter row) st;
                       st = newId u gen (js ''seq:'' @ seqKey row) (row_sequential row) st;
                       st = newId u gen (js ''vert:'' @ vertKey row) (row_vertical row) st
                   in st))
            rows ([], 0))"


section \<open>olx-parser.js\<close>

subsection \<open>The helpers\<close>

definition decodeXmlEntities :: "jsstring \<Rightarrow> jsstring" where
  "decodeXmlEntities str =
     replaceAll (js ''&apos;'') [apostrophe]
       (replaceAll (js ''&quot;'') [dquote]
          (replaceAll (js ''&gt;'') (js ''>'')
             (replaceAll (js ''&lt;'') (js ''<'')
                (replaceAll (js ''&amp;'') (js ''&'') str))))"

text \<open>\<open>stripTags(html)\<close>, with \<open>/<[^>]*>/g\<close> and \<open>/\s+/g\<close>.\<close>

definition anyTagRx :: rx where
  "anyTagRx = seqs [Chr (of_char CHR ''<''), Star True (notChar CHR ''>''), Chr (of_char CHR ''>'')]"

definition spacesRx :: rx where
  "spacesRx = Plus space"

definition stripTags :: "jsstring \<Rightarrow> jsstring" where
  "stripTags html = trim (rx_replace spacesRx (js '' '') (rx_replace anyTagRx (js '' '') html))"

text \<open>
  An object of attributes is the list of its properties; \<open>attrs[name] = value\<close> is \<open>map_set\<close>
  and \<open>attrs.name\<close> is \<open>map_get\<close>. The loop over \<open>/([\w_:-]+)\s*=\s*"([^"]*?)"/g\<close> is
  \<open>readAttributes\<close>; \<open>parseXmlAttributes(xml)\<close> runs it on the group of
  \<open>/<\w+\s([^>]*?)\/?>/\<close>.
\<close>

type_synonym attributes = "(jsstring \<times> jsstring) list"

definition attrRx :: rx where
  "attrRx =
     seqs [Grp (Plus (Cls (\<lambda>c. isWordChar c \<or> c = of_char CHR ''_'' \<or> c = of_char CHR '':''
                                \<or> c = of_char CHR ''-''))),
           Star True space, Chr (of_char CHR ''=''), Star True space,
           Chr dquote, Grp (Star False (Cls (\<lambda>c. c \<noteq> dquote))), Chr dquote]"

definition readAttributes :: "jsstring \<Rightarrow> attributes" where
  "readAttributes attrStr =
     fold (\<lambda>m attrs. map_set attrs (m ! 0) (decodeXmlEntities (m ! 1))) (rx_all attrRx attrStr) []"

definition tagRx :: rx where
  "tagRx =
     seqs [Chr (of_char CHR ''<''), Plus (Cls isWordChar), space,
           Grp (Star False (notChar CHR ''>'')), Opt (Chr (of_char CHR ''/'')),
           Chr (of_char CHR ''>'')]"

definition parseXmlAttributes :: "jsstring \<Rightarrow> attributes" where
  "parseXmlAttributes xml =
     (case rx_search tagRx xml of
        None \<Rightarrow> []
      | Some (pre, m, rest) \<Rightarrow> readAttributes (m ! 0))"

text \<open>
  \<open>extractChildIds(xml, tagName)\<close>, with the expression built from the name of the tag,
  \<open><TAG\s[^>]*url_name="([^"]*)"\<close>.
\<close>

definition childRx :: "string \<Rightarrow> rx" where
  "childRx tagName =
     seqs [Chr (of_char CHR ''<''), lit tagName, space, Star True (notChar CHR ''>''),
           lit ''url_name='', Chr dquote, Grp (Star True (Cls (\<lambda>c. c \<noteq> dquote))), Chr dquote]"

definition extractChildIds :: "jsstring \<Rightarrow> string \<Rightarrow> jsstring list" where
  "extractChildIds xml tagName = map (\<lambda>m. m ! 0) (rx_all (childRx tagName) xml)"

text \<open>
  \<open>extractBlocks(xml)\<close>, with \<open>/<(\w+)\s([^>]*?)\/?\s*>/g\<close>. A block is the object
  \<open>{ tag, ...attrs }\<close>: the property \<open>tag\<close> first, then the attributes, one of which may be
  named \<open>tag\<close> and then replaces it.
\<close>

definition blockRx :: rx where
  "blockRx =
     seqs [Chr (of_char CHR ''<''), Grp (Plus (Cls isWordChar)), space,
           Grp (Star False (notChar CHR ''>'')), Opt (Chr (of_char CHR ''/'')), Star True space,
           Chr (of_char CHR ''>'')]"

definition extractBlocks :: "jsstring \<Rightarrow> attributes list" where
  "extractBlocks xml =
     concat (map (\<lambda>m. let tag = m ! 0
                       in if tag = js ''vertical'' then []
                          else (let attrs = readAttributes (m ! 1)
                                in if or_default (map_get attrs (js ''url_name'')) [] \<noteq> []
                                   then [fold (\<lambda>(k, v) block. map_set block k v) attrs
                                           [(js ''tag'', tag)]]
                                   else []))
               (rx_all blockRx xml))"

text \<open>\<open>files.get(path)\<close> with the test \<open>if (!file)\<close>: a file that is there and not empty.\<close>

definition getFile :: "files \<Rightarrow> jsstring \<Rightarrow> jsstring option" where
  "getFile files path =
     (case map_get files path of None \<Rightarrow> None | Some c \<Rightarrow> if c = [] then None else Some c)"

text \<open>The text of the first group of a match, through \<open>stripTags\<close>, or the empty string.\<close>

definition between :: "string \<Rightarrow> string \<Rightarrow> rx" where
  "between opening closing = seqs [lit opening, Grp (Star False anyChar), lit closing]"

definition strippedGroup :: "rx \<Rightarrow> jsstring \<Rightarrow> jsstring" where
  "strippedGroup r s =
     (case rx_search r s of None \<Rightarrow> [] | Some (pre, m, rest) \<Rightarrow> trim (stripTags (m ! 0)))"

definition str_includes :: "jsstring \<Rightarrow> jsstring \<Rightarrow> bool" where
  "str_includes s sub = list_ex (\<lambda>k. prefix sub (drop k s)) [0 ..< length s + 1]"

definition indexOfString :: "jsstring \<Rightarrow> jsstring \<Rightarrow> int" where
  "indexOfString s sub =
     (case filter (\<lambda>k. prefix sub (drop k s)) [0 ..< length s + 1] of
        [] \<Rightarrow> - 1
      | k # _ \<Rightarrow> int k)"

subsection \<open>JSON\<close>

text \<open>
  The values of \<open>JSON.parse\<close>, which is the platform's and a parameter \<open>parseJson\<close> of the
  decoder, \<open>None\<close> when it throws. An object holds its properties in the order of
  \<open>Object.values\<close>. The decoder stores values of a policy in fields that the model has as
  strings and as a truth value; a value of another kind, which the source would store as
  it is, is left out by the model (\<open>jsonText\<close>, \<open>jsonBool\<close>).
\<close>

datatype json =
    JsNull
  | JsBool bool
  | JsNumber int
  | JsString jsstring
  | JsArray "json list"
  | JsObject "(jsstring \<times> json) list"

definition truthy :: "json \<Rightarrow> bool" where
  "truthy v =
     (case v of
        JsNull \<Rightarrow> False
      | JsBool b \<Rightarrow> b
      | JsNumber n \<Rightarrow> n \<noteq> 0
      | JsString s \<Rightarrow> s \<noteq> []
      | JsArray xs \<Rightarrow> True
      | JsObject ps \<Rightarrow> True)"

text \<open>
  \<open>v[name]\<close> for a name that is no index and no property of a prototype: \<open>None\<close> is
  \<open>undefined\<close>. On \<open>null\<close> the source throws; that case is taken before.
\<close>

definition property :: "json \<Rightarrow> jsstring \<Rightarrow> json option" where
  "property v name = (case v of JsObject ps \<Rightarrow> map_of ps name | _ \<Rightarrow> None)"

text \<open>\<open>Object.values(v)[0]\<close> and \<open>v[0]\<close>.\<close>

definition firstValue :: "json \<Rightarrow> json option" where
  "firstValue v =
     (case v of
        JsObject ps \<Rightarrow> (case ps of [] \<Rightarrow> None | (k, x) # _ \<Rightarrow> Some x)
      | JsArray xs \<Rightarrow> (case xs of [] \<Rightarrow> None | x # _ \<Rightarrow> Some x)
      | JsString s \<Rightarrow> (case s of [] \<Rightarrow> None | c # _ \<Rightarrow> Some (JsString [c]))
      | _ \<Rightarrow> None)"

definition firstElement :: "json \<Rightarrow> json option" where
  "firstElement v =
     (case v of
        JsObject ps \<Rightarrow> map_of ps (js ''0'')
      | JsArray xs \<Rightarrow> (case xs of [] \<Rightarrow> None | x # _ \<Rightarrow> Some x)
      | JsString s \<Rightarrow> (case s of [] \<Rightarrow> None | c # _ \<Rightarrow> Some (JsString [c]))
      | _ \<Rightarrow> None)"

definition orElse :: "json option \<Rightarrow> json option \<Rightarrow> json option" where
  "orElse a b = (case a of None \<Rightarrow> b | Some v \<Rightarrow> if truthy v then Some v else b)"

definition jsonText :: "json option \<Rightarrow> jsstring option" where
  "jsonText v = (case v of Some (JsString s) \<Rightarrow> if s = [] then None else Some s | _ \<Rightarrow> None)"

definition jsonBool :: "json option \<Rightarrow> bool option" where
  "jsonBool v = (case v of Some (JsBool b) \<Rightarrow> Some b | _ \<Rightarrow> None)"

subsection \<open>The parsers of the blocks\<close>

text \<open>
  The state of the decoder is the model and the list of warnings; a parser of a block
  returns the state it leaves.
\<close>

type_synonym olxState = "courseData \<times> jsstring list"

definition attr :: "attributes \<Rightarrow> string \<Rightarrow> jsstring" where
  "attr attrs name = or_default (map_get attrs (js name)) []"

definition parseHtmlBlock :: "files \<Rightarrow> jsstring \<Rightarrow> olxState \<Rightarrow> olxState" where
  "parseHtmlBlock files blockId = (\<lambda>(data, warnings).
     if map_has (textBlocks data) blockId then (data, warnings)
     else
       (let xmlAttrs = (case getFile files (js ''html/'' @ blockId @ js ''.xml'') of
                          Some xmlFile \<Rightarrow> parseXmlAttributes xmlFile
                        | None \<Rightarrow> []);
            title = or_default (map_get xmlAttrs (js ''display_name'')) blockId;
            htmlFilename = or_default (map_get xmlAttrs (js ''filename'')) blockId;
            htmlContent = or_default (map_get files (js ''html/'' @ htmlFilename @ js ''.html'')) []
        in (data\<lparr>textBlocks := map_set (textBlocks data) blockId
                    \<lparr>text_blockId = blockId, text_title = title,
                     text_content = trim htmlContent\<rparr>\<rparr>,
            warnings)))"

definition youtubeRx :: rx where
  "youtubeRx = seqs [lit ''1.00:'', Grp (Plus (Cls (\<lambda>c. \<not> isWhiteSpace c)))]"

definition parseVideoBlock ::
  "(jsstring \<Rightarrow> json option) \<Rightarrow> files \<Rightarrow> jsstring \<Rightarrow> attributes \<Rightarrow> olxState \<Rightarrow> olxState" where
  "parseVideoBlock parseJson files blockId inlineAttrs = (\<lambda>(data, warnings).
     if map_has (videoBlocks data) blockId then (data, warnings)
     else
       (let attrs = (case getFile files (js ''video/'' @ blockId @ js ''.xml'') of
                       Some xmlFile \<Rightarrow> parseXmlAttributes xmlFile
                     | None \<Rightarrow> inlineAttrs);
            title = or_default (map_get attrs (js ''display_name'')) blockId;
            youtubeId = attr attrs ''youtube_id_1_0'';
            youtubeId = (if youtubeId = [] \<and> attr attrs ''youtube'' \<noteq> []
                         then (case rx_search youtubeRx (attr attrs ''youtube'') of
                                 Some (pre, m, rest) \<Rightarrow> m ! 0
                               | None \<Rightarrow> youtubeId)
                         else youtubeId);
            html5Url = (if attr attrs ''html5_sources'' \<noteq> []
                        then (let decoded = replaceAll (js ''&quot;'') [dquote]
                                              (attr attrs ''html5_sources'')
                              in case parseJson decoded of
                                   None \<Rightarrow> attr attrs ''html5_sources''
                                 | Some JsNull \<Rightarrow> attr attrs ''html5_sources''
                                 | Some arr \<Rightarrow> or_default (jsonText (firstElement arr)) [])
                        else [])
        in (data\<lparr>videoBlocks := map_set (videoBlocks data) blockId
                    \<lparr>video_blockId = blockId, video_title = title, youtubeId = youtubeId,
                     html5Url = html5Url,
                     startTime = or_default (map_get attrs (js ''start_time'')) (js ''00:00:00''),
                     endTime = or_default (map_get attrs (js ''end_time'')) (js ''00:00:00'')\<rparr>\<rparr>,
            warnings)))"

text \<open>
  The expressions of \<open>parseProblemBlock\<close>: \<open>/<choice\s+correct="(true|false)">([\s\S]*?)<\/choice>/g\<close>
  and \<open>/Explanation\s*/i\<close>, whose letters match in both cases.
\<close>

definition choiceRx :: rx where
  "choiceRx =
     seqs [lit ''<choice'', Plus space, lit ''correct='', Chr dquote,
           Grp (Alt (lit ''true'') (lit ''false'')), Chr dquote, Chr (of_char CHR ''>''),
           Grp (Star False anyChar), lit ''</choice>'']"

definition anyCase :: "string \<Rightarrow> rx" where
  "anyCase s =
     foldr (\<lambda>c r. Seq (Cls (\<lambda>x. isAsciiLetter x \<and> asciiLower x = asciiLower (of_char c))) r) s Eps"

definition explanationRx :: rx where
  "explanationRx = seqs [anyCase ''Explanation'', Star True space]"

definition rx_replace_first :: "rx \<Rightarrow> jsstring \<Rightarrow> jsstring \<Rightarrow> jsstring" where
  "rx_replace_first r rep s =
     (case rx_search r s of None \<Rightarrow> s | Some (pre, m, rest) \<Rightarrow> pre @ rep @ rest)"

definition substring0 :: "jsstring \<Rightarrow> int \<Rightarrow> jsstring" where
  "substring0 s n = take (nat n) s"

definition readChoice :: "jsstring list \<Rightarrow> choice" where
  "readChoice m =
     (let correct = (m ! 0 = js ''true'');
          choiceContent = m ! 1;
          hintMatch = rx_search (between ''<choicehint>'' ''</choicehint>'') choiceContent;
          hint = (case hintMatch of None \<Rightarrow> [] | Some (pre, h, rest) \<Rightarrow> trim (stripTags (h ! 0)));
          text = (if hintMatch \<noteq> None
                  then substring0 choiceContent (indexOfString choiceContent (js ''<choicehint''))
                  else choiceContent)
      in \<lparr>choice_text = trim (stripTags text), choice_correct = correct, choice_hint = hint\<rparr>)"

definition parseProblemBlock :: "files \<Rightarrow> jsstring \<Rightarrow> olxState \<Rightarrow> olxState" where
  "parseProblemBlock files blockId = (\<lambda>(data, warnings).
     if map_has (problemBlocks data) blockId then (data, warnings)
     else
       (case getFile files (js ''problem/'' @ blockId @ js ''.xml'') of
          None \<Rightarrow> (data, warnings @ [js ''Problem file not found: problem/'' @ blockId @ js ''.xml''])
        | Some xmlFile \<Rightarrow>
            (let attrs = parseXmlAttributes xmlFile;
                 title = or_default (map_get attrs (js ''display_name'')) blockId;
                 questionText = strippedGroup (between ''<label>'' ''</label>'') xmlFile;
                 choices = map readChoice (rx_all choiceRx xmlFile);
                 explanation =
                   (case rx_search (between ''<solution>'' ''</solution>'') xmlFile of
                      None \<Rightarrow> []
                    | Some (pre, m, rest) \<Rightarrow>
                        trim (rx_replace_first explanationRx [] (stripTags (m ! 0))))
             in (data\<lparr>problemBlocks := map_set (problemBlocks data) blockId
                         \<lparr>problem_blockId = blockId, problem_title = title,
                          questionText = questionText, choices = choices,
                          explanation = explanation,
                          showAnswer = or_default (map_get attrs (js ''showanswer''))
                                         (js ''attempted'')\<rparr>\<rparr>,
                 warnings))))"

text \<open>
  The expressions of \<open>parseOpenResponseBlock\<close>; the one of the options is
  \<open>/<option\s+points="(\d+)">([\s\S]*?)<\/option>/g\<close>.
\<close>

definition optionRx :: rx where
  "optionRx =
     seqs [lit ''<option'', Plus space, lit ''points='', Chr dquote,
           Grp (Plus (Cls isDecimalDigit)), Chr dquote, Chr (of_char CHR ''>''),
           Grp (Star False anyChar), lit ''</option>'']"

definition readCriterionOption :: "jsstring list \<Rightarrow> criterionOption" where
  "readCriterionOption m =
     \<lparr>option_label = strippedGroup (between ''<label>'' ''</label>'') (m ! 1),
      option_points = (case parseInt (m ! 0) of None \<Rightarrow> Finite 0 | Some n \<Rightarrow> n)\<rparr>"

definition readCriterion :: "jsstring list \<Rightarrow> criterion list" where
  "readCriterion m =
     (let critContent = m ! 0;
          criterionName = strippedGroup (between ''<name>'' ''</name>'') critContent;
          options = map readCriterionOption (rx_all optionRx critContent)
      in if criterionName \<noteq> []
         then [\<lparr>criterion_name = criterionName, criterion_options = options\<rparr>]
         else [])"

definition parseOpenResponseBlock :: "files \<Rightarrow> jsstring \<Rightarrow> olxState \<Rightarrow> olxState" where
  "parseOpenResponseBlock files blockId = (\<lambda>(data, warnings).
     if map_has (openResponseBlocks data) blockId then (data, warnings)
     else
       (case getFile files (js ''openassessment/'' @ blockId @ js ''.xml'') of
          None \<Rightarrow> (data, warnings @ [js ''Open response file not found: openassessment/''
                                      @ blockId @ js ''.xml''])
        | Some xmlFile \<Rightarrow>
            (let attrs = parseXmlAttributes xmlFile;
                 title = or_default (map_get attrs (js ''display_name'')) blockId;
                 prompt = strippedGroup (between ''<description>'' ''</description>'') xmlFile;
                 criteria = concat (map readCriterion
                                      (rx_all (between ''<criterion>'' ''</criterion>'') xmlFile));
                 assessmentType =
                   (if str_includes xmlFile (js ''name='' @ quoted (js ''staff-assessment''))
                    then js ''staff''
                    else if str_includes xmlFile (js ''name='' @ quoted (js ''peer-assessment''))
                    then js ''peer''
                    else js ''self'')
             in (data\<lparr>openResponseBlocks := map_set (openResponseBlocks data) blockId
                         \<lparr>ora_blockId = blockId, ora_title = title, ora_prompt = prompt,
                          criteria = criteria, assessmentType = assessmentType\<rparr>\<rparr>,
                 warnings))))"

subsection \<open>parseOlx\<close>

text \<open>
  One turn of the loop over the blocks of a vertical, with its \<open>switch\<close>; then the loops
  over the verticals of a sequential, the sequentials of a chapter and the chapters, each
  \<open>continue\<close> leaving the state with one more warning.
\<close>

definition blockStep ::
  "(jsstring \<Rightarrow> json option) \<Rightarrow> files \<Rightarrow> jsstring \<Rightarrow> jsstring \<Rightarrow> jsstring \<Rightarrow> jsstring
     \<Rightarrow> attributes \<Rightarrow> olxState \<Rightarrow> olxState" where
  "blockStep parseJson files chapterName seqName vertName vertId block st =
     (let blockId = attr block ''url_name'';
          tag = attr block ''tag'';
          push = (\<lambda>blockType (data, warnings).
                    if blockId \<noteq> []
                    then (data\<lparr>structureRows := structureRows data
                                 @ [\<lparr>row_chapter = chapterName, row_sequential = seqName,
                                     row_vertical = vertName, row_blockType = blockType,
                                     row_blockId = blockId\<rparr>]\<rparr>,
                          warnings)
                    else (data, warnings))
      in if tag = js ''html'' then push (js ''text'') (parseHtmlBlock files blockId st)
         else if tag = js ''video''
         then push (js ''video'') (parseVideoBlock parseJson files blockId block st)
         else if tag = js ''problem'' then push (js ''problem'') (parseProblemBlock files blockId st)
         else if tag = js ''openassessment''
         then push (js ''openresponse'') (parseOpenResponseBlock files blockId st)
         else if tag \<in> set [js ''library_content'', js ''discussion'', js ''lti'', js ''lti_consumer'']
         then st
         else (fst st, snd st @ [js ''Unknown block type '' @ quoted tag @ js '' in vertical ''
                                 @ vertId @ js '', skipping.'']))"

definition verticalStep ::
  "(jsstring \<Rightarrow> json option) \<Rightarrow> files \<Rightarrow> jsstring \<Rightarrow> jsstring \<Rightarrow> jsstring \<Rightarrow> olxState
     \<Rightarrow> olxState" where
  "verticalStep parseJson files chapterName seqName vertId st =
     (case getFile files (js ''vertical/'' @ vertId @ js ''.xml'') of
        None \<Rightarrow> (fst st, snd st @ [js ''Vertical file not found: vertical/'' @ vertId @ js ''.xml''])
      | Some vertXml \<Rightarrow>
          (let vertAttrs = parseXmlAttributes vertXml;
               vertName = or_default (map_get vertAttrs (js ''display_name'')) vertId
           in fold (blockStep parseJson files chapterName seqName vertName vertId)
                (extractBlocks vertXml) st))"

definition sequentialStep ::
  "(jsstring \<Rightarrow> json option) \<Rightarrow> files \<Rightarrow> jsstring \<Rightarrow> jsstring \<Rightarrow> olxState \<Rightarrow> olxState" where
  "sequentialStep parseJson files chapterName seqId st =
     (case getFile files (js ''sequential/'' @ seqId @ js ''.xml'') of
        None \<Rightarrow> (fst st, snd st @ [js ''Sequential file not found: sequential/'' @ seqId
                                  @ js ''.xml''])
      | Some seqXml \<Rightarrow>
          (let seqAttrs = parseXmlAttributes seqXml;
               seqName = or_default (map_get seqAttrs (js ''display_name'')) seqId
           in fold (verticalStep parseJson files chapterName seqName)
                (extractChildIds seqXml ''vertical'') st))"

definition chapterStep ::
  "(jsstring \<Rightarrow> json option) \<Rightarrow> files \<Rightarrow> jsstring \<Rightarrow> olxState \<Rightarrow> olxState" where
  "chapterStep parseJson files chId st =
     (case getFile files (js ''chapter/'' @ chId @ js ''.xml'') of
        None \<Rightarrow> (fst st, snd st @ [js ''Chapter file not found: chapter/'' @ chId @ js ''.xml''])
      | Some chXml \<Rightarrow>
          (let chAttrs = parseXmlAttributes chXml;
               chapterName = or_default (map_get chAttrs (js ''display_name'')) chId
           in fold (sequentialStep parseJson files chapterName)
                (extractChildIds chXml ''sequential'') st))"

text \<open>
  The steps 2 and 3 of \<open>parseOlx\<close>: the attributes of \<open>course/{run}.xml\<close>, then the policy.
  In the policy the course is the value at \<open>course/{run}\<close>, or the first value, or an empty
  object; \<open>JSON.parse\<close> throwing, or giving \<open>null\<close>, ends in the warning.
\<close>

definition readRunAttributes :: "jsstring option \<Rightarrow> courseInfo \<Rightarrow> courseInfo" where
  "readRunAttributes runXml i =
     (case runXml of
        None \<Rightarrow> i
      | Some xml \<Rightarrow>
          (let runAttrs = parseXmlAttributes xml;
               i = i\<lparr>courseName := attr runAttrs ''display_name'',
                      language := or_default (map_get runAttrs (js ''language'')) (js ''en''),
                      selfPaced := (map_get runAttrs (js ''self_paced'') = Some (js ''true''))\<rparr>;
               i = (if attr runAttrs ''start'' \<noteq> [] then i\<lparr>startDate := attr runAttrs ''start''\<rparr>
                    else i);
               i = (if attr runAttrs ''end'' \<noteq> [] then i\<lparr>endDate := attr runAttrs ''end''\<rparr>
                    else i)
           in i))"

definition readPolicy ::
  "(jsstring \<Rightarrow> json option) \<Rightarrow> files \<Rightarrow> jsstring \<Rightarrow> olxState \<Rightarrow> olxState" where
  "readPolicy parseJson files runName = (\<lambda>(data, warnings).
     case getFile files (js ''policies/'' @ runName @ js ''/policy.json'') of
       None \<Rightarrow> (data, warnings)
     | Some policyFile \<Rightarrow>
         (case parseJson policyFile of
            None \<Rightarrow> (data, warnings @ [js ''Could not parse policies/'' @ runName @ js ''/policy.json''])
          | Some JsNull \<Rightarrow>
              (data, warnings @ [js ''Could not parse policies/'' @ runName @ js ''/policy.json''])
          | Some policy \<Rightarrow>
              (let coursePolicy =
                     (case orElse (property policy (js ''course/'' @ runName)) (firstValue policy) of
                        None \<Rightarrow> JsObject []
                      | Some v \<Rightarrow> v);
                   i = info data;
                   i = (case jsonText (property coursePolicy (js ''display_name'')) of
                          Some name \<Rightarrow> if courseName i = [] then i\<lparr>courseName := name\<rparr> else i
                        | None \<Rightarrow> i);
                   i = (case jsonText (property coursePolicy (js ''language'')) of
                          Some l \<Rightarrow> i\<lparr>language := l\<rparr>
                        | None \<Rightarrow> i);
                   i = (case jsonBool (property coursePolicy (js ''self_paced'')) of
                          Some b \<Rightarrow> i\<lparr>selfPaced := b\<rparr>
                        | None \<Rightarrow> i)
               in (data\<lparr>info := i\<rparr>, warnings))))"

definition missingCourseXml :: jsstring where
  "missingCourseXml =
     js ''Missing course.xml '' @ [0x2014] @ js '' cannot determine course structure.''"

definition parseOlx :: "(jsstring \<Rightarrow> json option) \<Rightarrow> files \<Rightarrow> olxState" where
  "parseOlx parseJson files =
     (let data = createCourseData;
          warnings = []
      in case getFile files (js ''course.xml'') of
           None \<Rightarrow> (data, warnings @ [missingCourseXml])
         | Some courseXml \<Rightarrow>
             (let courseAttrs = parseXmlAttributes courseXml;
                  runName = attr courseAttrs ''url_name'';
                  data = data\<lparr>info := (info data)\<lparr>org := attr courseAttrs ''org'',
                                                   courseId := attr courseAttrs ''course'',
                                                   run := runName\<rparr>\<rparr>;
                  runXml = getFile files (js ''course/'' @ runName @ js ''.xml'');
                  data = data\<lparr>info := readRunAttributes runXml (info data)\<rparr>;
                  st = readPolicy parseJson files runName (data, warnings);
                  chapterIds = extractChildIds (or_default runXml []) ''chapter''
              in fold (chapterStep parseJson files) chapterIds st))"

text \<open>
  The way of a model through the archive and back: the export, \<open>extractTarGz\<close>, and
  \<open>parseOlx\<close> on the files found. \<open>None\<close> stands for an extraction that does not return, and
  \<open>Inl\<close> for one that fails.
\<close>

definition roundTrip ::
  "(byte list \<Rightarrow> byte list) \<Rightarrow> (byte list \<Rightarrow> byte list option) \<Rightarrow> (jsstring \<Rightarrow> byte list)
     \<Rightarrow> (byte list \<Rightarrow> jsstring) \<Rightarrow> nat \<Rightarrow> (jsstring \<Rightarrow> jsstring option)
     \<Rightarrow> (jsstring \<Rightarrow> jsstring option) \<Rightarrow> (jsstring \<Rightarrow> json option) \<Rightarrow> courseData
     \<Rightarrow> chapterNode list \<Rightarrow> (error + olxState) option" where
  "roundTrip gzipSync gunzipSync encode decode mtime toISO inherited parseJson data hierarchy =
     (case extractTarGz gunzipSync decode
             (exportArchive gzipSync encode mtime toISO inherited data hierarchy) of
        None \<Rightarrow> None
      | Some (Inl e) \<Rightarrow> Some (Inl e)
      | Some (Inr files) \<Rightarrow> Some (Inr (parseOlx parseJson files)))"


section \<open>A course with one text block\<close>

text \<open>
  A course of one chapter, one sequential and one vertical that holds one text block with
  the plain content \<open>Hi\<close>, and its hierarchy, with ids as \<open>handleFile\<close> makes them.
\<close>

definition plainTextCourse :: courseData where
  "plainTextCourse =
     createCourseData\<lparr>
       structureRows := [\<lparr>row_chapter = js ''C'', row_sequential = js ''S'', row_vertical = js ''V'',
                           row_blockType = js ''text'', row_blockId = js ''t1''\<rparr>],
       textBlocks := [(js ''t1'', \<lparr>text_blockId = js ''t1'', text_title = js ''T'',
                                   text_content = js ''Hi''\<rparr>)]\<rparr>"

definition plainTextHierarchy :: "chapterNode list" where
  "plainTextHierarchy =
     buildHierarchy (structureRows plainTextCourse)
       (makeIdMap ascii_only (\<lambda>n. js ''0123456789abcdef0123456789abcdef'')
          (structureRows plainTextCourse))"

text \<open>A problem whose question holds a character that XML escapes.\<close>

definition comparisonProblem :: problemBlock where
  "comparisonProblem =
     \<lparr>problem_blockId = js ''p1'', problem_title = js ''P'', questionText = js ''1 < 2?'',
      choices = [\<lparr>choice_text = js ''yes'', choice_correct = True, choice_hint = []\<rparr>,
                 \<lparr>choice_text = js ''no'', choice_correct = False, choice_hint = []\<rparr>],
      explanation = [], showAnswer = js ''attempted''\<rparr>"

section \<open>Properties of the string helpers\<close>

lemma replaceAll_single:
  "replaceAll [c] rep s = concat (map (\<lambda>x. if x = c then rep else [x]) s)"
proof (induction s)
  case Nil
  show ?case by (simp add: replaceAll.simps)
next
  case (Cons a s)
  show ?case
    by (subst replaceAll.simps) (cases "a = c"; simp add: Cons.IH)
qed

lemma js_single: "js [c] = [of_char c]"
  by (simp add: js_def)

lemma replaceAll_single_append:
  "replaceAll [c] rep (xs @ ys) = replaceAll [c] rep xs @ replaceAll [c] rep ys"
  by (simp add: replaceAll_single)

lemma escapeXml_Cons:
  "escapeXml (JString (c # s)) = escapeChar c @ escapeXml (JString s)"
proof -
  have "escapeXml (JString ([c] @ s)) = escapeXml (JString [c]) @ escapeXml (JString s)"
    by (simp add: escapeXml_def js_single replaceAll_single_append del: append.simps)
  moreover have "escapeXml (JString [c]) = escapeChar c"
    by (simp add: escapeXml_def escapeChar_def replaceAll_single js_def dquote_def apostrophe_def)
  ultimately show ?thesis by simp
qed

lemma escapeXml_chars:
  "escapeXml (JString s) = concat (map escapeChar s)"
  by (induction s) (simp_all add: escapeXml_Cons, simp add: escapeXml_def replaceAll.simps)

lemma escapeChar_no_special:
  "set (escapeChar c) \<inter> {of_char CHR ''<'', of_char CHR ''>'', dquote, apostrophe} = {}"
  by (simp add: escapeChar_def js_def dquote_def apostrophe_def)

lemma escapeChar_amp:
  "i < length (escapeChar c) \<Longrightarrow> escapeChar c ! i = of_char CHR ''&''
     \<Longrightarrow> i = 0 \<and> begins_entity (escapeChar c @ t)"
  by (auto simp: escapeChar_def js_def dquote_def apostrophe_def begins_entity_def nth_Cons'
      split: if_splits)

lemma concat_escape_amp:
  "i < length (concat (map escapeChar s)) \<Longrightarrow> concat (map escapeChar s) ! i = of_char CHR ''&''
     \<Longrightarrow> begins_entity (drop i (concat (map escapeChar s)))"
proof (induction s arbitrary: i)
  case Nil
  then show ?case by simp
next
  case (Cons c s)
  show ?case
  proof (cases "i < length (escapeChar c)")
    case True
    with Cons.prems have "escapeChar c ! i = of_char CHR ''&''"
      by (simp add: nth_append)
    from escapeChar_amp [OF True this] show ?thesis by simp
  next
    case False
    with Cons.prems Cons.IH [of "i - length (escapeChar c)"] show ?thesis
      by (simp add: nth_append)
  qed
qed

text \<open>
  Claim C10. For every input, \<open>escapeXml\<close> returns a string (the empty string for
  \<open>null\<close> and \<open>undefined\<close>) in which none of the characters \<open><\<close>, \<open>>\<close>, the double
  quote and the single quote occurs, and in which every \<open>&\<close> starts one of the five entities
  \<open>&amp;\<close>, \<open>&lt;\<close>, \<open>&gt;\<close>, \<open>&quot;\<close>, \<open>&apos;\<close>.
\<close>

theorem escapeXml_safe:
  "escapeXml JNull = [] \<and> escapeXml JUndefined = []
   \<and> set (escapeXml v) \<inter> {of_char CHR ''<'', of_char CHR ''>'', dquote, apostrophe} = {}
   \<and> (\<forall>i < length (escapeXml v).
         escapeXml v ! i = of_char CHR ''&'' \<longrightarrow> begins_entity (drop i (escapeXml v)))"
proof (cases v)
  case (JString s)
  have "set (concat (map escapeChar s)) \<inter> {of_char CHR ''<'', of_char CHR ''>'', dquote, apostrophe} = {}"
    using escapeChar_no_special by (induction s) (simp_all add: Int_Un_distrib2)
  then show ?thesis
    using concat_escape_amp by (simp add: JString escapeXml_chars) (simp add: escapeXml_def)
qed (simp_all add: escapeXml_def)

theorem escapeXml_safe_witness:
  "escapeXml (JString (js ''a&<b'')) = js ''a&amp;&lt;b''
   \<and> begins_entity (drop 1 (escapeXml (JString (js ''a&<b''))))"
proof -
  have e: "escapeXml (JString (js ''a&<b'')) = js ''a&amp;&lt;b''"
    by (simp add: escapeXml_chars escapeChar_def js_def dquote_def apostrophe_def)
  have "1 < length (escapeXml (JString (js ''a&<b'')))
        \<and> escapeXml (JString (js ''a&<b'')) ! 1 = of_char CHR ''&''"
    unfolding e by (simp add: js_def)
  with escapeXml_safe [of "JString (js ''a&<b'')"] e show ?thesis by blast
qed

section \<open>The tar header\<close>

lemma length_fold_update [simp]:
  "length (fold (\<lambda>i b. b[g i := f i]) is b) = length b"
  by (induction "is" arbitrary: b) simp_all

lemma length_writeString [simp]: "length (writeString buf off s m) = length buf"
  by (simp add: writeString_def)

lemma nth_fold_update_upt:
  "i < length b \<Longrightarrow>
   fold (\<lambda>k b. b[off + k := f k]) [0 ..< n] b ! i =
     (if off \<le> i \<and> i < off + n then f (i - off) else b ! i)"
proof (induction n)
  case 0
  then show ?case by auto
next
  case (Suc n)
  have "length (fold (\<lambda>k b. b[off + k := f k]) [0 ..< n] b) = length b"
    by (rule length_fold_update)
  with Suc show ?case
    by (cases "i = off + n") auto
qed

lemma nth_writeString:
  "i < length buf \<Longrightarrow>
   writeString buf off s m ! i =
     (if off \<le> i \<and> i < off + min (length s) m then ucast (s ! (i - off)) else buf ! i)"
  unfolding writeString_def by (rule nth_fold_update_upt)

lemma writeString_eq:
  "off + min (length s) m \<le> length buf \<Longrightarrow>
   writeString buf off s m = take off buf @ map ucast (take m s) @ drop (off + min (length s) m) buf"
  by (rule nth_equalityI) (auto simp: nth_writeString nth_append min_def)

lemma fold_sum_upt:
  "fold (\<lambda>i c. c + f i) [0 ..< n] (0::nat) = sum_list (map f [0 ..< n])"
  by (induction n) simp_all

lemma checksum_loop:
  "length h = 512 \<Longrightarrow> fold (\<lambda>i c. c + unat (h ! i)) [0 ..< 512] 0 = byte_sum h"
proof -
  assume l: "length h = 512"
  have "map (\<lambda>i. unat (h ! i)) [0 ..< length h] = map unat h"
    by (rule nth_equalityI) simp_all
  with l show ?thesis by (simp add: fold_sum_upt byte_sum_def)
qed

lemma length_tarHeaderFields [simp]: "length (tarHeaderFields mtime name sz isDir) = 512"
  by (simp add: tarHeaderFields_def)

lemma nth_fold_const:
  "i < length b \<Longrightarrow>
   fold (\<lambda>k h. h[k := v]) [lo ..< hi] b ! i = (if lo \<le> i \<and> i < hi then v else b ! i)"
proof (induction hi)
  case 0
  then show ?case by simp
next
  case (Suc hi)
  have "length (fold (\<lambda>k h. h[k := v]) [lo ..< hi] b) = length b"
    by (rule length_fold_update [where g = "\<lambda>k. k" and f = "\<lambda>k. v"])
  with Suc show ?case by (cases "lo \<le> hi"; cases "i = hi") auto
qed

lemma tarHeaderFields_placeholder:
  "148 \<le> i \<Longrightarrow> i < 156 \<Longrightarrow> tarHeaderFields mtime name sz isDir ! i = 0x20"
  by (simp add: tarHeaderFields_def nth_writeString nth_list_update nth_fold_const)

lemma byte_sum_le: "byte_sum bs \<le> 255 * length bs"
proof (induction bs)
  case Nil
  show ?case by (simp add: byte_sum_def)
next
  case (Cons b bs)
  have "unat b \<le> 255" using unsigned_less [of b, where 'a = nat] by simp
  with Cons show ?case by (simp add: byte_sum_def)
qed


lemma toOctal_length: "n < 8 ^ k \<Longrightarrow> 0 < k \<Longrightarrow> length (toOctal n) \<le> k"
proof (induction n arbitrary: k rule: toOctal.induct)
  case (1 n)
  show ?case
  proof (cases "n < 8")
    case True
    with "1.prems" show ?thesis by (subst toOctal.simps) simp
  next
    case False
    from "1.prems" False obtain j where k: "k = Suc j" by (cases k) auto
    with "1.prems" False have "0 < j" by (cases j) auto
    moreover from "1.prems" k have "n div 8 < 8 ^ j" by (simp add: less_mult_imp_div_less mult.commute)
    ultimately have "length (toOctal (n div 8)) \<le> j" using "1.IH" False by simp
    with False k show ?thesis by (subst toOctal.simps) simp
  qed
qed

lemma unat_octDigit: "d < 8 \<Longrightarrow> unat (ucast (octDigit d) :: byte) = 48 + d"
proof -
  assume "d < 8"
  then have "d \<in> {0, 1, 2, 3, 4, 5, 6, 7}" by auto
  then show ?thesis by (auto simp: octDigit_def)
qed

lemma octal_value_snoc: "octal_value (ds @ [d]) = octal_value ds * 8 + (unat d - 48)"
  by (simp add: octal_value_def)

lemma octal_value_toOctal: "octal_value (map ucast (toOctal n)) = n"
proof (induction n rule: toOctal.induct)
  case (1 n)
  show ?case
  proof (cases "n < 8")
    case True
    then show ?thesis
      by (subst toOctal.simps) (simp add: octal_value_def unat_octDigit)
  next
    case False
    with "1.IH" show ?thesis
      by (subst toOctal.simps) (simp add: octal_value_snoc unat_octDigit)
  qed
qed

lemma is_octal_digit_octDigit: "d < 8 \<Longrightarrow> is_octal_digit (ucast (octDigit d))"
  by (simp add: is_octal_digit_def unat_octDigit)

lemma toOctal_digits: "list_all is_octal_digit (map ucast (toOctal n))"
proof (induction n rule: toOctal.induct)
  case (1 n)
  show ?case
  proof (cases "n < 8")
    case True
    then show ?thesis
      by (subst toOctal.simps) (simp add: is_octal_digit_octDigit)
  next
    case False
    with "1.IH" show ?thesis
      by (subst toOctal.simps) (simp add: is_octal_digit_octDigit)
  qed
qed

lemma octal_value_zeros:
  "octal_value (replicate k 48 @ ds) = octal_value ds"
proof -
  have "fold (\<lambda>d acc. acc * 8 + (unat d - 48)) (replicate k (48::byte)) 0 = 0"
    by (induction k) simp_all
  then show ?thesis by (simp add: octal_value_def)
qed

lemma padStart_octal_value:
  "octal_value (map ucast (padStart k 48 (toOctal n))) = n"
  by (simp add: padStart_def octal_value_zeros octal_value_toOctal)

lemma padStart_octal_digits:
  "list_all is_octal_digit (map ucast (padStart k 48 (toOctal n)))"
proof -
  have "is_octal_digit 48" by (simp add: is_octal_digit_def)
  then have "list_all is_octal_digit (replicate (k - length (toOctal n)) 48)"
    by (simp add: list_all_iff)
  with toOctal_digits [of n] show ?thesis by (simp add: padStart_def)
qed

lemma padStart_length:
  "length s \<le> k \<Longrightarrow> length (padStart k c s) = k"
  by (simp add: padStart_def)

lemma placeholder_block:
  "take 8 (drop 148 (tarHeaderFields mtime name sz isDir)) = replicate 8 0x20"
  by (rule nth_equalityI) (simp_all add: tarHeaderFields_placeholder)

lemma createTarHeader_eq:
  "createTarHeader mtime name sz isDir =
     take 148 (tarHeaderFields mtime name sz isDir)
     @ map ucast (padStart 6 (of_char CHR ''0'')
                   (toOctal (byte_sum (tarHeaderFields mtime name sz isDir)))) @ [0, 0x20]
     @ drop 156 (tarHeaderFields mtime name sz isDir)"
proof -
  let ?h = "tarHeaderFields mtime name sz isDir"
  have "byte_sum ?h \<le> 255 * 512" using byte_sum_le [of ?h] by simp
  then have "byte_sum ?h < 8 ^ 6" by simp
  then have "length (toOctal (byte_sum ?h)) \<le> 6" by (rule toOctal_length) simp
  then have l: "length (padStart 6 48 (toOctal (byte_sum ?h))) = 6"
    by (rule padStart_length)
  show ?thesis
    by (simp add: createTarHeader_def Let_def checksum_loop writeString_eq l)
qed

text \<open>
  Claim C3. For every header block the tar encoder produces (any name, size, flag and time),
  the checksum field, bytes 148 to 155, holds six octal digits followed by NUL and a space,
  and the value of the digits is the sum of the 512 bytes of the header taken with the
  checksum field as eight ASCII spaces.
\<close>

theorem createTarHeader_checksum:
  "(let h = createTarHeader mtime name sz isDir;
        field = take 8 (drop 148 h);
        digits = take 6 field
    in length h = 512
       \<and> length digits = 6 \<and> list_all is_octal_digit digits \<and> drop 6 field = [0, 0x20]
       \<and> octal_value digits = byte_sum (blank_checksum h))"
proof -
  let ?h = "tarHeaderFields mtime name sz isDir"
  let ?ds = "map ucast (padStart 6 (of_char CHR ''0'') (toOctal (byte_sum ?h))) :: byte list"
  have "byte_sum ?h \<le> 255 * 512" using byte_sum_le [of ?h] by simp
  then have "byte_sum ?h < 8 ^ 6" by simp
  then have "length (toOctal (byte_sum ?h)) \<le> 6" by (rule toOctal_length) simp
  then have l: "length ?ds = 6" by (simp add: padStart_length)
  have h: "createTarHeader mtime name sz isDir = take 148 ?h @ ?ds @ [0, 0x20] @ drop 156 ?h"
    by (rule createTarHeader_eq)
  have "take 148 ?h @ replicate 8 0x20 @ drop 156 ?h = take 148 ?h @ take 8 (drop 148 ?h) @ drop 8 (drop 148 ?h)"
    by (simp add: placeholder_block)
  also have "\<dots> = ?h" by (simp only: append_take_drop_id)
  finally have b: "blank_checksum (createTarHeader mtime name sz isDir) = ?h"
    unfolding h blank_checksum_def using l by simp
  have f: "take 8 (drop 148 (createTarHeader mtime name sz isDir)) = ?ds @ [0, 0x20]"
    unfolding h using l by simp
  have len: "length (createTarHeader mtime name sz isDir) = 512"
    by (simp add: createTarHeader_def Let_def)
  show ?thesis
    unfolding Let_def f b using l len
    by (simp add: padStart_octal_value padStart_octal_digits)
qed

section \<open>Reading back a header\<close>

lemma length_js [simp]: "length (js s) = length s"
  by (simp add: js_def)

lemma nth_writeString_outside:
  "i < off \<or> off + m \<le> i \<Longrightarrow> i < length buf \<Longrightarrow> writeString buf off s m ! i = buf ! i"
  by (auto simp: nth_writeString)

lemma tarHeaderFields_name:
  "i < 100 \<Longrightarrow> tarHeaderFields mtime name sz isDir ! i =
     (if i < length name then ucast (name ! i) else 0)"
  by (simp add: tarHeaderFields_def nth_writeString_outside nth_fold_const)
     (auto simp: nth_writeString)

lemma tarHeaderFields_size:
  "124 \<le> i \<Longrightarrow> i < 136 \<Longrightarrow> tarHeaderFields mtime name sz isDir ! i =
     (if i - 124 < length (padStart 11 48 (toOctal sz))
      then ucast (padStart 11 48 (toOctal sz) ! (i - 124)) else 0)"
  by (simp add: tarHeaderFields_def nth_writeString_outside nth_fold_const)
     (auto simp: nth_writeString nth_writeString_outside)

lemma tarHeaderFields_typeflag:
  "tarHeaderFields mtime name sz isDir ! 156 = (if isDir then 0x35 else 0x30)"
  by (simp add: tarHeaderFields_def nth_writeString_outside)

lemma tarHeaderFields_tail:
  "265 \<le> i \<Longrightarrow> i < 512 \<Longrightarrow> tarHeaderFields mtime name sz isDir ! i = 0"
  by (simp add: tarHeaderFields_def nth_writeString_outside nth_fold_const)

lemma length_createTarHeader [simp]: "length (createTarHeader mtime name sz isDir) = 512"
  by (simp add: createTarHeader_def Let_def)

lemma length_checksum_digits:
  "length (padStart 6 48 (toOctal (byte_sum (tarHeaderFields mtime name sz isDir)))) = 6"
proof -
  let ?h = "tarHeaderFields mtime name sz isDir"
  have "byte_sum ?h \<le> 255 * 512" using byte_sum_le [of ?h] by simp
  then have "byte_sum ?h < 8 ^ 6" by simp
  then have "length (toOctal (byte_sum ?h)) \<le> 6" by (rule toOctal_length) simp
  then show ?thesis by (rule padStart_length)
qed

lemma createTarHeader_nth:
  "i < 148 \<or> 156 \<le> i \<Longrightarrow> i < 512 \<Longrightarrow>
   createTarHeader mtime name sz isDir ! i = tarHeaderFields mtime name sz isDir ! i"
  using length_checksum_digits [of mtime name sz isDir]
  by (auto simp: createTarHeader_eq nth_append)


lemma takeWhile_then_stop:
  "list_all P xs \<Longrightarrow> \<not> P z \<Longrightarrow> takeWhile P (xs @ replicate k z) = xs"
proof (induction xs)
  case Nil
  then show ?case by (cases k) simp_all
next
  case (Cons a xs)
  then show ?case by simp
qed

lemma header_name_field:
  assumes "length name \<le> 100"
  shows "take 100 (createTarHeader mtime name sz isDir)
           = map ucast name @ replicate (100 - length name) 0"
  using assms
  by (intro nth_equalityI) (auto simp: createTarHeader_nth tarHeaderFields_name nth_append)

lemma readString_name:
  assumes "length name \<le> 100" and "list_all char_ok name"
  shows "readString (createTarHeader mtime name sz isDir) 0 100 = name"
proof -
  from assms(2) have nz: "list_all (\<lambda>b. b \<noteq> 0) (map ucast name :: byte list)"
    by (simp add: list_all_iff char_ok_def)
  from assms(2) have "map win1252 (map ucast name) = name"
    by (simp add: list_all_iff char_ok_def map_idI)
  then show ?thesis
    by (simp add: readString_def header_name_field [OF assms(1)] takeWhile_then_stop [OF nz])
qed

lemma readString_name_nonempty:
  assumes "name \<noteq> []" and "(ucast (hd name) :: byte) \<noteq> 0"
  shows "readString (createTarHeader mtime name sz isDir) 0 100 \<noteq> []"
proof -
  let ?h = "createTarHeader mtime name sz isDir"
  have "?h ! 0 = ucast (hd name)"
    using assms(1) by (simp add: createTarHeader_nth tarHeaderFields_name hd_conv_nth)
  moreover have "take 100 ?h = ?h ! 0 # take 99 (drop 1 ?h)"
    using length_createTarHeader [of mtime name sz isDir] by (cases ?h) simp_all
  ultimately show ?thesis using assms(2) by (simp add: readString_def)
qed

lemma readString_prefix:
  "readString (createTarHeader mtime name sz isDir) 345 155 = []"
proof -
  let ?h = "createTarHeader mtime name sz isDir"
  have "?h ! 345 = 0" by (simp add: createTarHeader_nth tarHeaderFields_tail)
  moreover have "drop 345 ?h = ?h ! 345 # drop (Suc 345) ?h"
    by (rule Cons_nth_drop_Suc [symmetric]) simp
  ultimately show ?thesis by (simp add: readString_def)
qed

lemma header_typeflag:
  "createTarHeader mtime name sz isDir ! 156 = (if isDir then 0x35 else 0x30)"
  by (simp add: createTarHeader_nth tarHeaderFields_typeflag)

lemma header_not_zero: "\<not> isZeroBlock (createTarHeader mtime name sz isDir)"
proof -
  let ?h = "createTarHeader mtime name sz isDir"
  have "?h ! 156 \<in> set ?h" by (rule nth_mem) simp
  moreover have "?h ! 156 \<noteq> 0" by (simp add: header_typeflag)
  ultimately show ?thesis by (auto simp: isZeroBlock_def list_all_iff)
qed


lemma isOctalChar_octDigit: "d < 8 \<Longrightarrow> isOctalChar (octDigit d)"
proof -
  assume "d < 8"
  then have "d \<in> {0, 1, 2, 3, 4, 5, 6, 7}" by auto
  then show ?thesis by (auto simp: octDigit_def isOctalChar_def)
qed

lemma toOctal_chars: "list_all isOctalChar (toOctal n)"
proof (induction n rule: toOctal.induct)
  case (1 n)
  show ?case
  proof (cases "n < 8")
    case True
    then show ?thesis by (subst toOctal.simps) (simp add: isOctalChar_octDigit)
  next
    case False
    with "1.IH" show ?thesis by (subst toOctal.simps) (simp add: isOctalChar_octDigit)
  qed
qed

lemma padStart_chars: "list_all isOctalChar (padStart k 48 (toOctal n))"
proof -
  have "isOctalChar 48" by (simp add: isOctalChar_def)
  then have "list_all isOctalChar (replicate (k - length (toOctal n)) 48)"
    by (simp add: list_all_iff)
  with toOctal_chars [of n] show ?thesis by (simp add: padStart_def)
qed

lemma isOctalChar_facts:
  assumes "isOctalChar c"
  shows "(ucast c :: byte) \<noteq> 0" and "win1252 (ucast c) = c" and "\<not> isWhiteSpace c"
    and "c \<noteq> 0" and "c \<noteq> 45" and "c \<noteq> 43" and "unat (ucast c :: byte) = unat c"
proof -
  from assms have "48 \<le> unat c \<and> unat c \<le> 55"
    by (simp add: isOctalChar_def word_le_nat_alt)
  then have "unat c \<in> {48, 49, 50, 51, 52, 53, 54, 55}" by auto
  moreover have "c = of_nat (unat c)" by simp
  ultimately have "c \<in> of_nat ` {48, 49, 50, 51, 52, 53, 54, 55}" by blast
  then have "c \<in> {48, 49, 50, 51, 52, 53, 54, 55}" by simp
  then show "(ucast c :: byte) \<noteq> 0" and "win1252 (ucast c) = c" and "\<not> isWhiteSpace c"
    and "c \<noteq> 0" and "c \<noteq> 45" and "c \<noteq> 43" and "unat (ucast c :: byte) = unat c"
    by (auto simp: win1252_def isWhiteSpace_def)
qed


lemma size_digits_length:
  assumes "sz < 8 ^ 12"
  shows "length (padStart 11 48 (toOctal sz)) \<le> 12"
proof -
  from assms have "length (toOctal sz) \<le> 12" by (rule toOctal_length) simp
  then show ?thesis by (simp add: padStart_def)
qed

lemma header_size_field:
  assumes "sz < 8 ^ 12"
  shows "take 12 (drop 124 (createTarHeader mtime name sz isDir))
           = map ucast (padStart 11 48 (toOctal sz))
             @ replicate (12 - length (padStart 11 48 (toOctal sz))) 0"
  using size_digits_length [OF assms]
  by (intro nth_equalityI) (auto simp: createTarHeader_nth tarHeaderFields_size nth_append)

lemma readString_size:
  assumes "sz < 8 ^ 12"
  shows "readString (createTarHeader mtime name sz isDir) 124 12 = padStart 11 48 (toOctal sz)"
proof -
  let ?ds = "padStart 11 48 (toOctal sz)"
  have oc: "list_all isOctalChar ?ds" by (rule padStart_chars)
  then have nz: "list_all (\<lambda>b. b \<noteq> 0) (map ucast ?ds :: byte list)"
    by (simp add: list_all_iff isOctalChar_facts)
  from oc have "map win1252 (map ucast ?ds) = ?ds"
    by (simp add: list_all_iff isOctalChar_facts map_idI)
  then show ?thesis
    by (simp add: readString_def header_size_field [OF assms] takeWhile_then_stop [OF nz])
qed

lemma replaceAll_absent:
  "c \<notin> set s \<Longrightarrow> replaceAll [c] rep s = s"
  by (induction s) (auto simp: replaceAll_single)

lemma trim_id:
  "s \<noteq> [] \<Longrightarrow> \<not> isWhiteSpace (hd s) \<Longrightarrow> \<not> isWhiteSpace (last s) \<Longrightarrow> trim s = s"
proof -
  assume a: "s \<noteq> []" "\<not> isWhiteSpace (hd s)" "\<not> isWhiteSpace (last s)"
  then have "dropWhile isWhiteSpace s = s" by (cases s) simp_all
  moreover from a have "dropWhile isWhiteSpace (rev s) = rev s"
    by (cases "rev s") (simp_all add: last_rev [symmetric] hd_rev)
  ultimately show ?thesis by (simp add: trim_def)
qed

lemma octal_fold_chars:
  "list_all isOctalChar ds \<Longrightarrow>
   fold (\<lambda>d acc. acc * 8 + (unat d - 48)) ds a
     = fold (\<lambda>d acc. acc * 8 + (unat d - 48)) (map ucast ds :: byte list) a"
  by (induction ds arbitrary: a) (simp_all add: isOctalChar_facts)

lemma parseInt8_digits:
  assumes "ds \<noteq> []" and "list_all isOctalChar ds"
  shows "parseInt8 ds = Some (int (octal_value (map ucast ds)))"
proof -
  from assms have h: "isOctalChar (hd ds)" by (cases ds) simp_all
  then have d: "dropWhile isWhiteSpace ds = ds"
    using assms(1) by (cases ds) (simp_all add: isOctalChar_facts)
  from assms(2) have t: "takeWhile isOctalChar ds = ds"
    by (simp add: list_all_iff)
  from h have s: "hd ds \<noteq> 45" "hd ds \<noteq> 43" by (simp_all add: isOctalChar_facts)
  show ?thesis
    using assms(1) s
    by (simp add: parseInt8_def d t Let_def octal_fold_chars [OF assms(2)] octal_value_def)
qed

lemma parse_size_field:
  assumes "sz < 8 ^ 12"
  shows "parseInt8 (trim (replaceAll [0] []
           (readString (createTarHeader mtime name sz isDir) 124 12))) = Some (int sz)"
proof -
  let ?ds = "padStart 11 48 (toOctal sz)"
  have oc: "list_all isOctalChar ?ds" by (rule padStart_chars)
  have ne: "?ds \<noteq> []" by (simp add: padStart_def) (subst toOctal.simps, simp)
  from oc have "0 \<notin> set ?ds" using isOctalChar_facts(4) by (auto simp: list_all_iff)
  then have r: "replaceAll [0] [] ?ds = ?ds" by (rule replaceAll_absent)
  from oc ne have "isOctalChar (hd ?ds)" "isOctalChar (last ?ds)"
    by (simp_all add: list_all_iff)
  then have t: "trim ?ds = ?ds" using ne by (intro trim_id) (simp_all add: isOctalChar_facts)
  show ?thesis
    by (simp add: readString_size [OF assms] r t parseInt8_digits [OF ne oc] padStart_octal_value)
qed

section \<open>The loop of the extractor on an archive of the encoder\<close>

lemma subarray_at:
  "subarray (pre @ xs @ rest) (int (length pre)) (int (length pre) + int (length xs)) = xs"
  by (simp add: subarray_def Let_def min_def)

lemma subarray_header:
  "length h = 512 \<Longrightarrow> subarray (pre @ h @ rest) (int (length pre)) (int (length pre) + 512) = h"
  using subarray_at [of pre h rest] by simp

lemma course_prefix_chars: "list_all char_ok (js ''course/'')"
  by (simp add: js_def char_ok_def win1252_def)

lemma indexOf_course: "indexOf (js ''course/'' @ p) 47 = 6"
  by (simp add: indexOf_def js_def)


lemma round_up_512: "(n::nat) \<le> (n + 511) div 512 * 512"
proof -
  have "(n + 511) div 512 * 512 + (n + 511) mod 512 = n + 511" by simp
  moreover have "(n + 511) mod 512 < 512" by simp
  ultimately show ?thesis by linarith
qed

lemma length_padded_data: "length (padded_data d) = (length d + 511) div 512 * 512"
  using round_up_512 [of "length d"] by (simp add: padded_data_def)

lemma padded_data_split: "padded_data d = d @ replicate (length (padded_data d) - length d) 0"
  by (simp add: padded_data_def)

lemma step_directory:
  assumes "name \<noteq> []" and "(ucast (hd name) :: byte) \<noteq> 0"
  shows "extractTar_step decode (pre @ createTarHeader mtime name 0 True @ rest)
           (int (length pre)) files = Some (int (length pre) + 512, files)"
proof -
  let ?h = "createTarHeader mtime name 0 True"
  have sub: "subarray (pre @ ?h @ rest) (int (length pre)) (int (length pre) + 512) = ?h"
    by (rule subarray_header) simp
  have sz: "parseInt8 (trim (replaceAll [0] [] (readString ?h 124 12))) = Some 0"
    using parse_size_field [of 0 mtime name True] by simp
  show ?thesis
    unfolding extractTar_step_def sub Let_def
    by (simp add: header_not_zero readString_name_nonempty [OF assms] sz header_typeflag)
qed

lemma step_file:
  assumes "path_ok p" and "length d < 8 ^ 12"
  shows "extractTar_step decode
           (pre @ createTarHeader mtime (js ''course/'' @ p) (length d) False @ padded_data d @ rest)
           (int (length pre)) files
         = Some (int (length pre) + 512 + int (length (padded_data d)),
                 if d \<noteq> [] then map_set files p (decode d) else files)"
proof -
  let ?name = "js ''course/'' @ p"
  let ?h = "createTarHeader mtime ?name (length d) False"
  let ?pad = "replicate (length (padded_data d) - length d) (0::byte)"
  from assms(1) have len: "length ?name \<le> 100" and ok: "list_all char_ok ?name" and ne: "p \<noteq> []"
    using course_prefix_chars by (simp_all add: path_ok_def)
  have sub: "subarray (pre @ ?h @ padded_data d @ rest) (int (length pre)) (int (length pre) + 512) = ?h"
    by (rule subarray_header) simp
  have "subarray ((pre @ ?h) @ d @ (?pad @ rest)) (int (length (pre @ ?h)))
          (int (length (pre @ ?h)) + int (length d)) = d"
    by (rule subarray_at)
  then have dat: "subarray (pre @ ?h @ padded_data d @ rest) (int (length pre) + 512)
          (int (length pre) + 512 + int (length d)) = d"
    by (subst padded_data_split) simp
  have sz: "parseInt8 (trim (replaceAll [0] [] (readString ?h 124 12))) = Some (int (length d))"
    by (rule parse_size_field [OF assms(2)])
  have pd: "(int (length d) + 511) div 512 * 512 = int (length (padded_data d))"
    by (simp add: length_padded_data zdiv_int)
  have nm: "readString ?h 0 100 = ?name" by (rule readString_name [OF len ok])
  have nn: "?name \<noteq> []" by (simp add: js_def)
  show ?thesis
    unfolding extractTar_step_def sub Let_def nm readString_prefix sz header_typeflag
    using ne nn by (simp add: header_not_zero indexOf_course dat pd)
qed

lemma loop_directories:
  assumes "list_all (\<lambda>name. name \<noteq> [] \<and> (ucast (hd name) :: byte) \<noteq> 0) dirs"
  shows "extractTar_loop decode
           (pre @ concat (map (\<lambda>dir. createTarHeader mtime dir 0 True) dirs) @ rest)
           (int (length pre)) files
         = extractTar_loop decode
           (pre @ concat (map (\<lambda>dir. createTarHeader mtime dir 0 True) dirs) @ rest)
           (int (length pre) + 512 * int (length dirs)) files"
  using assms
proof (induction dirs arbitrary: pre)
  case Nil
  show ?case by simp
next
  case (Cons dir dirs)
  let ?h = "createTarHeader mtime dir 0 True"
  let ?tl = "concat (map (\<lambda>dir. createTarHeader mtime dir 0 True) dirs)"
  let ?data = "pre @ concat (map (\<lambda>dir. createTarHeader mtime dir 0 True) (dir # dirs)) @ rest"
  have d1: "?data = pre @ ?h @ (?tl @ rest)" by simp
  have d2: "?data = (pre @ ?h) @ ?tl @ rest" by simp
  from Cons.prems have ok: "dir \<noteq> []" "(ucast (hd dir) :: byte) \<noteq> 0"
    and oks: "list_all (\<lambda>name. name \<noteq> [] \<and> (ucast (hd name) :: byte) \<noteq> 0) dirs"
    by simp_all
  have "extractTar_loop decode ?data (int (length pre)) files
          = extractTar_loop decode ?data (int (length pre) + 512) files"
    by (subst extractTar_loop.simps, subst d1) (simp add: step_directory [OF ok])
  also have "\<dots> = extractTar_loop decode ((pre @ ?h) @ ?tl @ rest) (int (length (pre @ ?h))) files"
    by (simp only: d2) simp
  also have "\<dots> = extractTar_loop decode ((pre @ ?h) @ ?tl @ rest)
                     (int (length (pre @ ?h)) + 512 * int (length dirs)) files"
    by (rule Cons.IH [OF oks])
  also have "\<dots> = extractTar_loop decode ?data (int (length pre) + 512 * int (length (dir # dirs))) files"
    by (simp only: d2) (simp add: algebra_simps)
  finally show ?case .
qed

lemma loop_files:
  assumes "list_all (\<lambda>(p, d). path_ok p \<and> length d < 8 ^ 12) es"
  shows "extractTar_loop decode (pre @ concat (map (entry_blocks mtime) es) @ rest)
           (int (length pre)) files
         = extractTar_loop decode (pre @ concat (map (entry_blocks mtime) es) @ rest)
           (int (length (pre @ concat (map (entry_blocks mtime) es))))
           (fold (add_entry decode) es files)"
  using assms
proof (induction es arbitrary: pre files)
  case Nil
  show ?case by simp
next
  case (Cons e es)
  obtain p d where e: "e = (p, d)" by (cases e)
  let ?h = "createTarHeader mtime (js ''course/'' @ p) (length d) False"
  let ?tl = "concat (map (entry_blocks mtime) es)"
  let ?data = "pre @ concat (map (entry_blocks mtime) (e # es)) @ rest"
  let ?pre = "pre @ entry_blocks mtime e"
  have d1: "?data = pre @ ?h @ padded_data d @ (?tl @ rest)" by (simp add: e)
  have d2: "?data = ?pre @ ?tl @ rest" by simp
  from Cons.prems have ok: "path_ok p" "length d < 8 ^ 12"
    and oks: "list_all (\<lambda>(p, d). path_ok p \<and> length d < 8 ^ 12) es"
    by (simp_all add: e)
  have "extractTar_loop decode ?data (int (length pre)) files
          = extractTar_loop decode ?data (int (length pre) + 512 + int (length (padded_data d)))
              (add_entry decode e files)"
    by (subst extractTar_loop.simps, subst d1) (simp add: step_file [OF ok] e)
  also have "\<dots> = extractTar_loop decode (?pre @ ?tl @ rest) (int (length ?pre))
                     (add_entry decode e files)"
    by (simp only: d2) (simp add: e add.assoc)
  also have "\<dots> = extractTar_loop decode (?pre @ ?tl @ rest)
                     (int (length (?pre @ ?tl))) (fold (add_entry decode) es (add_entry decode e files))"
    by (rule Cons.IH [OF oks])
  also have "\<dots> = extractTar_loop decode ?data
                     (int (length (pre @ concat (map (entry_blocks mtime) (e # es)))))
                     (fold (add_entry decode) (e # es) files)"
    by (simp only: d2) simp
  finally show ?case .
qed

lemma loop_end:
  "extractTar_loop decode (pre @ replicate 1024 0) (int (length pre)) files = Some files"
proof -
  have "subarray (pre @ replicate 512 0 @ replicate 512 0) (int (length pre)) (int (length pre) + 512)
          = replicate 512 0"
    by (rule subarray_header) simp
  moreover have "replicate 1024 (0::byte) = replicate 512 0 @ replicate 512 0"
    by (simp add: replicate_add [symmetric])
  ultimately have "extractTar_step decode (pre @ replicate 1024 0) (int (length pre)) files = None"
    by (simp add: extractTar_step_def isZeroBlock_def list_all_iff)
  then show ?thesis by (subst extractTar_loop.simps) simp
qed

lemma join_with_hd:
  "p \<noteq> [] \<Longrightarrow> join_with sep (p # ps) \<noteq> [] \<and> hd (join_with sep (p # ps)) = hd p"
  by (cases ps) simp_all

lemma split_on_course:
  "split_on 47 (js ''course/'' @ p) = js ''course'' # split_on 47 p"
  by (simp add: js_def)

lemma entry_dirs_course:
  assumes "dir \<in> set (entry_dirs (js ''course/'' @ p))"
  shows "dir \<noteq> [] \<and> (ucast (hd dir) :: byte) \<noteq> 0"
proof -
  from assms obtain i where i: "1 \<le> i"
    and dir: "dir = join_with (js ''/'') (take i (js ''course'' # split_on 47 p)) @ js ''/''"
    by (auto simp: entry_dirs_def split_on_course Let_def)
  from i obtain j where "i = Suc j" by (cases i) auto
  then have t: "take i (js ''course'' # split_on 47 p) = js ''course'' # take j (split_on 47 p)"
    by simp
  have "js ''course'' \<noteq> []" by (simp add: js_def)
  from join_with_hd [OF this, of "js ''/''" "take j (split_on 47 p)"]
  show ?thesis by (simp add: dir t) (simp add: js_def)
qed

lemma file_blocks_concat:
  "concat (concat (map (\<lambda>(name, d). [createTarHeader mtime name (length d) False, padded_data d])
     (map (\<lambda>(path, content). (js ''course/'' @ path, encode content)) files)))
   = concat (map (entry_blocks mtime) (map (\<lambda>(p, c). (p, encode c)) files))"
  by (induction files) auto

lemma length_dir_blocks:
  "length (concat (map (\<lambda>dir. createTarHeader mtime dir 0 True) dirs)) = 512 * length dirs"
  by (induction dirs) simp_all

lemma extractTar_loop_archive:
  assumes dirs: "list_all (\<lambda>name. name \<noteq> [] \<and> (ucast (hd name) :: byte) \<noteq> 0) dirs"
    and es: "list_all (\<lambda>(p, d). path_ok p \<and> length d < 8 ^ 12) es"
  shows "extractTar_loop decode
           (concat (map (\<lambda>dir. createTarHeader mtime dir 0 True) dirs)
            @ concat (map (entry_blocks mtime) es) @ replicate 1024 0) 0 []
         = Some (fold (add_entry decode) es [])"
proof -
  let ?D = "concat (map (\<lambda>dir. createTarHeader mtime dir 0 True) dirs)"
  let ?F = "concat (map (entry_blocks mtime) es)"
  let ?Z = "replicate 1024 (0::byte)"
  have "extractTar_loop decode ([] @ ?D @ (?F @ ?Z)) (int (length ([] :: byte list))) []
          = extractTar_loop decode ([] @ ?D @ (?F @ ?Z))
              (int (length ([] :: byte list)) + 512 * int (length dirs)) []"
    by (rule loop_directories [OF dirs])
  then have "extractTar_loop decode (?D @ ?F @ ?Z) 0 []
          = extractTar_loop decode (?D @ ?F @ ?Z) (int (length ?D)) []"
    by (simp add: length_dir_blocks)
  also have "\<dots> = extractTar_loop decode (?D @ ?F @ ?Z) (int (length (?D @ ?F)))
                     (fold (add_entry decode) es [])"
    by (rule loop_files [OF es])
  also have "\<dots> = extractTar_loop decode ((?D @ ?F) @ ?Z) (int (length (?D @ ?F)))
                     (fold (add_entry decode) es [])"
    by (simp only: append_assoc)
  also have "\<dots> = Some (fold (add_entry decode) es [])"
    by (rule loop_end)
  finally show ?thesis .
qed

lemma extractTar_createTar:
  assumes "list_all (\<lambda>(p, c). path_ok p \<and> length (encode c) < 8 ^ 12) files"
  shows "extractTar decode
           (createTar mtime (map (\<lambda>(path, content). (js ''course/'' @ path, encode content)) files))
         = Some (fold (add_entry decode) (map (\<lambda>(p, c). (p, encode c)) files) [])"
proof -
  let ?entries = "map (\<lambda>(path, content). (js ''course/'' @ path, encode content)) files"
  let ?dirs = "sort (remdups (concat (map (\<lambda>(name, d). entry_dirs name) ?entries)))"
  let ?es = "map (\<lambda>(p, c). (p, encode c)) files"
  have dirs: "list_all (\<lambda>name. name \<noteq> [] \<and> (ucast (hd name) :: byte) \<noteq> 0) ?dirs"
    using entry_dirs_course by (auto simp: list_all_iff)
  from assms have es: "list_all (\<lambda>(p, d). path_ok p \<and> length d < 8 ^ 12) ?es"
    by (auto simp: list_all_iff)
  show ?thesis
    unfolding extractTar_def createTar_def Let_def concat_append file_blocks_concat
    using extractTar_loop_archive [OF dirs es, of decode mtime]
    by (simp only: concat.simps append_Nil2)
qed

lemma map_set_fresh: "k \<notin> fst ` set m \<Longrightarrow> map_set m k v = m @ [(k, v)]"
  by (induction m) auto

lemma fold_add_entry_distinct:
  "distinct (map fst es) \<Longrightarrow> fst ` set acc \<inter> fst ` set es = {} \<Longrightarrow>
   fold (add_entry decode) es acc
     = acc @ map (\<lambda>(p, d). (p, decode d)) (filter (\<lambda>(p, d). d \<noteq> []) es)"
proof (induction es arbitrary: acc)
  case Nil
  show ?case by simp
next
  case (Cons e es)
  obtain p d where e: "e = (p, d)" by (cases e)
  from Cons.prems have fresh: "p \<notin> fst ` set acc" by (auto simp: e)
  from Cons.prems have pes: "p \<notin> fst ` set es" and d: "distinct (map fst es)"
    and disj: "fst ` set acc \<inter> fst ` set es = {}"
    by (auto simp: e)
  show ?case
  proof (cases "d = []")
    case True
    with Cons.IH [OF d disj] show ?thesis by (simp add: e)
  next
    case False
    have "fst ` set (acc @ [(p, decode d)]) \<inter> fst ` set es = {}"
      using pes disj by auto
    from Cons.IH [OF d this] False show ?thesis
      by (simp add: e map_set_fresh [OF fresh])
  qed
qed

lemma archive_roundtrip_general:
  assumes gz: "\<And>b. gunzipSync (gzipSync b) = Some b"
    and ok: "list_all (\<lambda>(p, c). path_ok p \<and> length (encode c) < 8 ^ 12) files"
    and dist: "distinct (map fst files)"
  shows "extractTarGz gunzipSync decode (generateTarGz gzipSync encode mtime files)
         = Some (Inr (map (\<lambda>(p, c). (p, decode (encode c)))
                       (filter (\<lambda>(p, c). encode c \<noteq> []) files)))"
proof -
  have m: "map fst (map (\<lambda>(p, c). (p, encode c)) files) = map fst files"
    by (auto simp: case_prod_beta)
  have f: "map (\<lambda>(p, d). (p, decode d)) (filter (\<lambda>(p, d). d \<noteq> []) (map (\<lambda>(p, c). (p, encode c)) files))
           = map (\<lambda>(p, c). (p, decode (encode c))) (filter (\<lambda>(p, c). encode c \<noteq> []) files)"
    by (induction files) auto
  from dist have "fold (add_entry decode) (map (\<lambda>(p, c). (p, encode c)) files) []
        = map (\<lambda>(p, c). (p, decode (encode c))) (filter (\<lambda>(p, c). encode c \<noteq> []) files)"
    by (subst fold_add_entry_distinct) (simp_all only: m f, simp_all)
  then show ?thesis
    by (simp add: extractTarGz_def generateTarGz_def tarGzip_def gz extractTar_createTar [OF ok])
qed

text \<open>
  Claim C2, as amended. Packing an entry map and unpacking the result reproduces the map
  exactly, with the same paths in the same order and the same contents, for every entry map
  whose paths are not empty, have at most 93 characters, all of them kept by the one-byte
  name field (\<open>path_ok\<close>), and whose contents encode to at least one and fewer than
  \<open>8 ^ 12\<close> bytes that decode to the content again. The library's \<open>gunzipSync\<close> is taken to
  undo \<open>gzipSync\<close>.
\<close>

theorem archive_roundtrip:
  assumes "\<And>b. gunzipSync (gzipSync b) = Some b"
    and "distinct (map fst files)"
    and "list_all (\<lambda>(p, c). path_ok p \<and> encode c \<noteq> [] \<and> length (encode c) < 8 ^ 12
                            \<and> decode (encode c) = c) files"
  shows "extractTarGz gunzipSync decode (generateTarGz gzipSync encode mtime files)
         = Some (Inr files)"
proof -
  from assms(3) have ok: "list_all (\<lambda>(p, c). path_ok p \<and> length (encode c) < 8 ^ 12) files"
    by (auto simp: list_all_iff)
  from assms(3) have "filter (\<lambda>(p, c). encode c \<noteq> []) files = files"
    by (auto simp: list_all_iff filter_id_conv)
  moreover from assms(3) have "map (\<lambda>(p, c). (p, decode (encode c))) files = files"
    by (auto simp: list_all_iff intro!: map_idI)
  ultimately show ?thesis
    using archive_roundtrip_general [of gunzipSync gzipSync encode files decode mtime,
        OF assms(1) ok assms(2)]
    by simp
qed

theorem archive_roundtrip_witness:
  "distinct (map fst [(js ''course.xml'', js ''<course/>''), (js ''html/a.html'', js ''hi'')])
   \<and> list_all (\<lambda>(p, c). path_ok p \<and> ascii_encode c \<noteq> [] \<and> length (ascii_encode c) < 8 ^ 12
                         \<and> ascii_decode (ascii_encode c) = c)
         [(js ''course.xml'', js ''<course/>''), (js ''html/a.html'', js ''hi'')]
   \<and> extractTarGz Some ascii_decode (generateTarGz (\<lambda>b. b) ascii_encode 0
         [(js ''course.xml'', js ''<course/>''), (js ''html/a.html'', js ''hi'')])
       = Some (Inr [(js ''course.xml'', js ''<course/>''), (js ''html/a.html'', js ''hi'')])"
proof -
  let ?F = "[(js ''course.xml'', js ''<course/>''), (js ''html/a.html'', js ''hi'')]"
  have d: "distinct (map fst ?F)" by (simp add: js_def)
  have l: "list_all (\<lambda>(p, c). path_ok p \<and> ascii_encode c \<noteq> [] \<and> length (ascii_encode c) < 8 ^ 12
                         \<and> ascii_decode (ascii_encode c) = c) ?F"
    by (simp add: js_def path_ok_def char_ok_def win1252_def ascii_encode_def ascii_decode_def)
  have g: "\<And>b :: byte list. Some ((\<lambda>b. b) b) = Some b" by simp
  from archive_roundtrip [of Some "\<lambda>b. b" ?F ascii_encode ascii_decode 0, OF g d l] d l
  show ?thesis by blast
qed

text \<open>
  Claim C2 as stated fails: an entry with empty content is written, and the extractor,
  which stores a file only \<open>if (isFile && size > 0)\<close>, drops it.
\<close>

theorem archive_roundtrip_counterexample:
  "extractTarGz Some ascii_decode (generateTarGz (\<lambda>b. b) ascii_encode 0 [(js ''a.txt'', [])])
     = Some (Inr [])
   \<and> extractTarGz Some ascii_decode (generateTarGz (\<lambda>b. b) ascii_encode 0 [(js ''a.txt'', [])])
     \<noteq> Some (Inr [(js ''a.txt'', [])])"
proof -
  have ok: "list_all (\<lambda>(p, c). path_ok p \<and> length (ascii_encode c) < 8 ^ 12) [(js ''a.txt'', [])]"
    by (simp add: js_def path_ok_def char_ok_def win1252_def ascii_encode_def)
  have g: "\<And>b :: byte list. Some ((\<lambda>b. b) b) = Some b" by simp
  have "extractTarGz Some ascii_decode (generateTarGz (\<lambda>b. b) ascii_encode 0 [(js ''a.txt'', [])])
          = Some (Inr [])"
    using archive_roundtrip_general [of Some "\<lambda>b. b" ascii_encode "[(js ''a.txt'', [])]" ascii_decode 0,
        OF g ok]
    by (simp add: ascii_encode_def)
  then show ?thesis by simp
qed

section \<open>The hierarchy builder\<close>

lemma first_occurrences_snoc:
  "first_occurrences (xs @ [x]) =
     (if x \<in> set xs then first_occurrences xs else first_occurrences xs @ [x])"
  by (simp add: first_occurrences_def)

lemma first_occurrences_Nil [simp]: "first_occurrences [] = []"
  by (simp add: first_occurrences_def)

lemma set_first_occurrences [simp]: "set (first_occurrences xs) = set xs"
  by (simp add: first_occurrences_def)

lemma distinct_first_occurrences [simp]: "distinct (first_occurrences xs)"
  by (simp add: first_occurrences_def)

lemma update_first_snoc:
  "\<forall>x \<in> set xs. \<not> P x \<Longrightarrow> P y \<Longrightarrow> update_first P f (xs @ [y]) = xs @ [f y]"
  by (induction xs) simp_all

lemma update_first_map:
  "distinct ks \<Longrightarrow> (\<And>k. P (g k) \<longleftrightarrow> k = k0) \<Longrightarrow>
   update_first P f (map g ks) = map (\<lambda>k. if k = k0 then f (g k) else g k) ks"
proof (induction ks)
  case Nil
  show ?case by simp
next
  case (Cons k ks)
  show ?case
  proof (cases "k = k0")
    case True
    with Cons.prems have "k0 \<notin> set ks" by simp
    then have "map (\<lambda>k. if k = k0 then f (g k) else g k) ks = map g ks"
      by (intro map_cong) auto
    with True Cons.prems(2) show ?thesis by simp
  next
    case False
    with Cons show ?thesis by simp
  qed
qed

lemma group_step:
  fixes key :: "'r \<Rightarrow> 'k" and B :: "'k \<Rightarrow> 'r list \<Rightarrow> 'n" and name :: "'n \<Rightarrow> 'k"
  assumes name: "\<And>k rs. name (B k rs) = k"
    and nameN: "name N = key r"
    and new: "F N = B (key r) [r]"
    and old: "F (B (key r) (filter (\<lambda>x. key x = key r) rows))
                = B (key r) (filter (\<lambda>x. key x = key r) rows @ [r])"
  shows "update_first (\<lambda>n. name n = key r) F
           (if key r \<notin> set (map name
                 (map (\<lambda>k. B k (filter (\<lambda>x. key x = k) rows)) (first_occurrences (map key rows))))
            then map (\<lambda>k. B k (filter (\<lambda>x. key x = k) rows)) (first_occurrences (map key rows)) @ [N]
            else map (\<lambda>k. B k (filter (\<lambda>x. key x = k) rows)) (first_occurrences (map key rows)))
         = map (\<lambda>k. B k (filter (\<lambda>x. key x = k) (rows @ [r])))
             (first_occurrences (map key (rows @ [r])))"
proof -
  let ?G = "map (\<lambda>k. B k (filter (\<lambda>x. key x = k) rows)) (first_occurrences (map key rows))"
  have names: "map name ?G = first_occurrences (map key rows)"
    by (simp add: name comp_def)
  show ?thesis
  proof (cases "key r \<in> set (map key rows)")
    case False
    then have empty: "filter (\<lambda>x. key x = key r) rows = []"
      by (induction rows) auto
    from False have cond: "key r \<notin> set (map name ?G)"
      by (simp only: names set_first_occurrences) simp
    from False have "\<forall>n \<in> set ?G. \<not> name n = key r"
      by (auto simp: name) (metis image_eqI)
    then have upd: "update_first (\<lambda>n. name n = key r) F (?G @ [N]) = ?G @ [F N]"
      by (rule update_first_snoc) (simp add: nameN)
    have same: "map (\<lambda>k. B k (filter (\<lambda>x. key x = k) (rows @ [r])))
                     (first_occurrences (map key rows)) = ?G"
      using False by (intro map_cong) auto
    have fo: "first_occurrences (map key (rows @ [r])) = first_occurrences (map key rows) @ [key r]"
      using False by (simp add: first_occurrences_snoc)
    have "map (\<lambda>k. B k (filter (\<lambda>x. key x = k) (rows @ [r])))
            (first_occurrences (map key rows) @ [key r]) = ?G @ [B (key r) [r]]"
      unfolding map_append same by (simp add: empty)
    then show ?thesis
      unfolding fo using cond upd new by (simp only: if_True if_False simp_thms)
  next
    case True
    then have cond: "\<not> key r \<notin> set (map name ?G)"
      by (simp only: names set_first_occurrences) simp
    have "update_first (\<lambda>n. name n = key r) F ?G
            = map (\<lambda>k. if k = key r then F (B k (filter (\<lambda>x. key x = k) rows))
                        else B k (filter (\<lambda>x. key x = k) rows))
                (first_occurrences (map key rows))"
      by (rule update_first_map) (simp_all add: name)
    also have "\<dots> = map (\<lambda>k. B k (filter (\<lambda>x. key x = k) (rows @ [r])))
                       (first_occurrences (map key rows))"
      by (intro map_cong) (auto simp: old)
    finally have upd: "update_first (\<lambda>n. name n = key r) F ?G
            = map (\<lambda>k. B k (filter (\<lambda>x. key x = k) (rows @ [r])))
                       (first_occurrences (map key rows))" .
    have fo: "first_occurrences (map key (rows @ [r])) = first_occurrences (map key rows)"
      using True by (simp add: first_occurrences_snoc)
    show ?thesis
      unfolding fo using cond upd by (simp only: if_True if_False simp_thms)
  qed
qed

lemma put_vertical_spec:
  assumes "row_chapter r = c" and "row_sequential r = s"
  shows "put_vertical idMap r (spec_sequential idMap c s rows) = spec_sequential idMap c s (rows @ [r])"
proof -
  let ?N = "\<lparr>vert_name = row_vertical r,
             vert_id = id_or_name idMap (js ''vert:'' @ vertKey r) (row_vertical r),
             vert_blocks = []\<rparr>"
  have "update_first (\<lambda>n. vert_name n = row_vertical r) (add_block r)
           (if row_vertical r \<notin> set (map vert_name
                 (map (\<lambda>k. spec_vertical idMap c s k (filter (\<lambda>x. row_vertical x = k) rows))
                    (first_occurrences (map row_vertical rows))))
            then map (\<lambda>k. spec_vertical idMap c s k (filter (\<lambda>x. row_vertical x = k) rows))
                   (first_occurrences (map row_vertical rows)) @ [?N]
            else map (\<lambda>k. spec_vertical idMap c s k (filter (\<lambda>x. row_vertical x = k) rows))
                   (first_occurrences (map row_vertical rows)))
         = map (\<lambda>k. spec_vertical idMap c s k (filter (\<lambda>x. row_vertical x = k) (rows @ [r])))
             (first_occurrences (map row_vertical (rows @ [r])))"
    by (rule group_step)
       (simp_all add: spec_vertical_def add_block_def vertKey_def seqKey_def assms)
  note step = this
  have a: "seq_verticals (spec_sequential idMap c s rows)
             = map (\<lambda>k. spec_vertical idMap c s k (filter (\<lambda>x. row_vertical x = k) rows))
                 (first_occurrences (map row_vertical rows))"
    by (simp add: spec_sequential_def)
  show ?thesis
    unfolding put_vertical_def Let_def a step
    by (simp add: spec_sequential_def)
qed

lemma put_sequential_spec:
  assumes "row_chapter r = c"
  shows "put_sequential idMap r (spec_chapter idMap c rows) = spec_chapter idMap c (rows @ [r])"
proof -
  let ?N = "\<lparr>seq_name = row_sequential r,
             seq_id = id_or_name idMap (js ''seq:'' @ seqKey r) (row_sequential r),
             seq_verticals = []\<rparr>"
  have N: "?N = spec_sequential idMap c (row_sequential r) []"
    by (simp add: spec_sequential_def seqKey_def assms)
  have "update_first (\<lambda>n. seq_name n = row_sequential r) (put_vertical idMap r)
           (if row_sequential r \<notin> set (map seq_name
                 (map (\<lambda>k. spec_sequential idMap c k (filter (\<lambda>x. row_sequential x = k) rows))
                    (first_occurrences (map row_sequential rows))))
            then map (\<lambda>k. spec_sequential idMap c k (filter (\<lambda>x. row_sequential x = k) rows))
                   (first_occurrences (map row_sequential rows)) @ [?N]
            else map (\<lambda>k. spec_sequential idMap c k (filter (\<lambda>x. row_sequential x = k) rows))
                   (first_occurrences (map row_sequential rows)))
         = map (\<lambda>k. spec_sequential idMap c k (filter (\<lambda>x. row_sequential x = k) (rows @ [r])))
             (first_occurrences (map row_sequential (rows @ [r])))"
  proof (rule group_step)
    show "\<And>k rs. seq_name (spec_sequential idMap c k rs) = k"
      by (simp add: spec_sequential_def)
    show "seq_name ?N = row_sequential r" by simp
    show "put_vertical idMap r ?N = spec_sequential idMap c (row_sequential r) [r]"
      unfolding N using put_vertical_spec [OF assms refl, of idMap "[]"] by simp
    show "put_vertical idMap r
            (spec_sequential idMap c (row_sequential r) (filter (\<lambda>x. row_sequential x = row_sequential r) rows))
          = spec_sequential idMap c (row_sequential r)
              (filter (\<lambda>x. row_sequential x = row_sequential r) rows @ [r])"
      by (rule put_vertical_spec [OF assms refl])
  qed
  note step = this
  have a: "ch_sequentials (spec_chapter idMap c rows)
             = map (\<lambda>k. spec_sequential idMap c k (filter (\<lambda>x. row_sequential x = k) rows))
                 (first_occurrences (map row_sequential rows))"
    by (simp add: spec_chapter_def)
  show ?thesis
    unfolding put_sequential_def Let_def a step
    by (simp add: spec_chapter_def)
qed

lemma put_chapter_spec:
  "put_chapter idMap r (spec_hierarchy rows idMap) = spec_hierarchy (rows @ [r]) idMap"
proof -
  let ?N = "\<lparr>ch_name = row_chapter r,
             ch_id = id_or_name idMap (js ''ch:'' @ row_chapter r) (row_chapter r),
             ch_sequentials = []\<rparr>"
  have N: "?N = spec_chapter idMap (row_chapter r) []"
    by (simp add: spec_chapter_def)
  have "update_first (\<lambda>n. ch_name n = row_chapter r) (put_sequential idMap r)
           (if row_chapter r \<notin> set (map ch_name
                 (map (\<lambda>k. spec_chapter idMap k (filter (\<lambda>x. row_chapter x = k) rows))
                    (first_occurrences (map row_chapter rows))))
            then map (\<lambda>k. spec_chapter idMap k (filter (\<lambda>x. row_chapter x = k) rows))
                   (first_occurrences (map row_chapter rows)) @ [?N]
            else map (\<lambda>k. spec_chapter idMap k (filter (\<lambda>x. row_chapter x = k) rows))
                   (first_occurrences (map row_chapter rows)))
         = map (\<lambda>k. spec_chapter idMap k (filter (\<lambda>x. row_chapter x = k) (rows @ [r])))
             (first_occurrences (map row_chapter (rows @ [r])))"
  proof (rule group_step)
    show "\<And>k rs. ch_name (spec_chapter idMap k rs) = k"
      by (simp add: spec_chapter_def)
    show "ch_name ?N = row_chapter r" by simp
    show "put_sequential idMap r ?N = spec_chapter idMap (row_chapter r) [r]"
      unfolding N using put_sequential_spec [OF refl, of idMap r "[]"] by simp
    show "put_sequential idMap r
            (spec_chapter idMap (row_chapter r) (filter (\<lambda>x. row_chapter x = row_chapter r) rows))
          = spec_chapter idMap (row_chapter r) (filter (\<lambda>x. row_chapter x = row_chapter r) rows @ [r])"
      by (rule put_sequential_spec [OF refl])
  qed
  then show ?thesis
    unfolding put_chapter_def Let_def spec_hierarchy_def .
qed

lemma buildHierarchy_spec: "buildHierarchy rows idMap = spec_hierarchy rows idMap"
proof (induction rows rule: rev_induct)
  case Nil
  show ?case by (simp add: buildHierarchy_def spec_hierarchy_def)
next
  case (snoc r rows)
  then show ?case
    using put_chapter_spec [of idMap r rows] by (simp add: buildHierarchy_def)
qed

lemma group_filter:
  assumes "\<And>k. name (g k) = k"
  shows "filter (\<lambda>n. name n = c) (map g (first_occurrences ks)) = (if c \<in> set ks then [g c] else [])"
proof -
  have "distinct ks' \<Longrightarrow> filter (\<lambda>k. k = c) ks' = (if c \<in> set ks' then [c] else [])" for ks'
    by (induction ks') auto
  from this [of "first_occurrences ks"] show ?thesis
    by (simp add: filter_map comp_def assms)
qed

lemma verticals_at_spec:
  "verticals_at c s v (spec_hierarchy rows idMap) =
     (if (c, s, v) \<in> set (map (\<lambda>r. (row_chapter r, row_sequential r, row_vertical r)) rows)
      then [spec_vertical idMap c s v
              (filter (\<lambda>r. row_chapter r = c \<and> row_sequential r = s \<and> row_vertical r = v) rows)]
      else [])"
proof -
  have ch: "filter (\<lambda>n. ch_name n = c) (spec_hierarchy rows idMap)
      = (if c \<in> set (map row_chapter rows)
         then [spec_chapter idMap c (filter (\<lambda>r. row_chapter r = c) rows)] else [])"
    unfolding spec_hierarchy_def by (rule group_filter) (simp add: spec_chapter_def)
  have sq: "filter (\<lambda>n. seq_name n = s) (ch_sequentials (spec_chapter idMap c rs))
      = (if s \<in> set (map row_sequential rs)
         then [spec_sequential idMap c s (filter (\<lambda>r. row_sequential r = s) rs)] else [])" for rs
    unfolding spec_chapter_def chapterNode.simps
    by (rule group_filter) (simp add: spec_sequential_def)
  have vt: "filter (\<lambda>n. vert_name n = v) (seq_verticals (spec_sequential idMap c s rs))
      = (if v \<in> set (map row_vertical rs)
         then [spec_vertical idMap c s v (filter (\<lambda>r. row_vertical r = v) rs)] else [])" for rs
    unfolding spec_sequential_def sequentialNode.simps
    by (rule group_filter) (simp add: spec_vertical_def)
  have conj: "filter (\<lambda>r. row_vertical r = v) (filter (\<lambda>r. row_sequential r = s)
                (filter (\<lambda>r. row_chapter r = c) rows))
              = filter (\<lambda>r. row_chapter r = c \<and> row_sequential r = s \<and> row_vertical r = v) rows"
    by (simp add: conj_commute conj_left_commute)
  show ?thesis
    unfolding verticals_at_def ch
    by (auto simp: sq vt conj image_iff)
qed

lemma id_or_name_cong:
  "map_of idMap' = map_of idMap \<Longrightarrow> id_or_name idMap' = id_or_name idMap"
  by (simp add: id_or_name_def map_get_def fun_eq_iff)

lemma spec_hierarchy_cong:
  assumes "map_of idMap' = map_of idMap"
  shows "spec_hierarchy rows idMap' = spec_hierarchy rows idMap"
  by (simp add: spec_hierarchy_def spec_chapter_def spec_sequential_def spec_vertical_def
      id_or_name_cong [OF assms])

text \<open>
  Claim C8. The hierarchy builder is the grouping of the specification
  (\<open>spec_hierarchy\<close>: nodes in the order of the first occurrence of their names, blocks in
  the order of the rows). So all rows of one tuple of chapter, sequential and vertical names
  share exactly one vertical node, which holds their blocks in input order, and a tuple of
  no row has no node. The tree depends on the lookup only through the value it gives each
  key: the same rows under the same lookup give the same tree.
\<close>

theorem buildHierarchy_groups:
  "buildHierarchy rows idMap = spec_hierarchy rows idMap
   \<and> verticals_at c s v (buildHierarchy rows idMap) =
       (if (c, s, v) \<in> set (map (\<lambda>r. (row_chapter r, row_sequential r, row_vertical r)) rows)
        then [\<lparr>vert_name = v,
               vert_id = id_or_name idMap (js ''vert:'' @ c @ js ''|'' @ s @ js ''|'' @ v) v,
               vert_blocks = map (\<lambda>r. \<lparr>ref_type = row_blockType r, ref_blockId = row_blockId r\<rparr>)
                 (filter (\<lambda>r. row_chapter r = c \<and> row_sequential r = s \<and> row_vertical r = v)
                    rows)\<rparr>]
        else [])
   \<and> (\<forall>idMap'. map_of idMap' = map_of idMap
         \<longrightarrow> buildHierarchy rows idMap' = buildHierarchy rows idMap)"
proof (intro conjI allI impI)
  show "buildHierarchy rows idMap = spec_hierarchy rows idMap"
    by (rule buildHierarchy_spec)
  show "verticals_at c s v (buildHierarchy rows idMap) =
       (if (c, s, v) \<in> set (map (\<lambda>r. (row_chapter r, row_sequential r, row_vertical r)) rows)
        then [\<lparr>vert_name = v,
               vert_id = id_or_name idMap (js ''vert:'' @ c @ js ''|'' @ s @ js ''|'' @ v) v,
               vert_blocks = map (\<lambda>r. \<lparr>ref_type = row_blockType r, ref_blockId = row_blockId r\<rparr>)
                 (filter (\<lambda>r. row_chapter r = c \<and> row_sequential r = s \<and> row_vertical r = v)
                    rows)\<rparr>]
        else [])"
    by (simp add: buildHierarchy_spec verticals_at_spec spec_vertical_def)
  fix idMap' :: "(jsstring \<times> jsstring) list"
  assume "map_of idMap' = map_of idMap"
  then show "buildHierarchy rows idMap' = buildHierarchy rows idMap"
    unfolding buildHierarchy_spec by (rule spec_hierarchy_cong)
qed

theorem buildHierarchy_groups_witness:
  "verticals_at (js ''C'') (js ''S'') (js ''V'')
     (buildHierarchy
        [\<lparr>row_chapter = js ''C'', row_sequential = js ''S'', row_vertical = js ''V'',
           row_blockType = js ''text'', row_blockId = js ''a''\<rparr>,
         \<lparr>row_chapter = js ''C'', row_sequential = js ''T'', row_vertical = js ''V'',
           row_blockType = js ''video'', row_blockId = js ''b''\<rparr>,
         \<lparr>row_chapter = js ''C'', row_sequential = js ''S'', row_vertical = js ''V'',
           row_blockType = js ''problem'', row_blockId = js ''c''\<rparr>]
        [(js ''ch:C'', js ''c_1''), (js ''vert:C|S|V'', js ''v_1'')])
   = [\<lparr>vert_name = js ''V'', vert_id = js ''v_1'',
       vert_blocks = [\<lparr>ref_type = js ''text'', ref_blockId = js ''a''\<rparr>,
                      \<lparr>ref_type = js ''problem'', ref_blockId = js ''c''\<rparr>]\<rparr>]
   \<and> buildHierarchy
        [\<lparr>row_chapter = js ''C'', row_sequential = js ''S'', row_vertical = js ''V'',
           row_blockType = js ''text'', row_blockId = js ''a''\<rparr>,
         \<lparr>row_chapter = js ''C'', row_sequential = js ''T'', row_vertical = js ''V'',
           row_blockType = js ''video'', row_blockId = js ''b''\<rparr>,
         \<lparr>row_chapter = js ''C'', row_sequential = js ''S'', row_vertical = js ''V'',
           row_blockType = js ''problem'', row_blockId = js ''c''\<rparr>]
        [(js ''vert:C|S|V'', js ''v_1''), (js ''ch:C'', js ''c_1'')]
     = buildHierarchy
        [\<lparr>row_chapter = js ''C'', row_sequential = js ''S'', row_vertical = js ''V'',
           row_blockType = js ''text'', row_blockId = js ''a''\<rparr>,
         \<lparr>row_chapter = js ''C'', row_sequential = js ''T'', row_vertical = js ''V'',
           row_blockType = js ''video'', row_blockId = js ''b''\<rparr>,
         \<lparr>row_chapter = js ''C'', row_sequential = js ''S'', row_vertical = js ''V'',
           row_blockType = js ''problem'', row_blockId = js ''c''\<rparr>]
        [(js ''ch:C'', js ''c_1''), (js ''vert:C|S|V'', js ''v_1'')]"
proof -
  let ?rows = "[\<lparr>row_chapter = js ''C'', row_sequential = js ''S'', row_vertical = js ''V'',
           row_blockType = js ''text'', row_blockId = js ''a''\<rparr>,
         \<lparr>row_chapter = js ''C'', row_sequential = js ''T'', row_vertical = js ''V'',
           row_blockType = js ''video'', row_blockId = js ''b''\<rparr>,
         \<lparr>row_chapter = js ''C'', row_sequential = js ''S'', row_vertical = js ''V'',
           row_blockType = js ''problem'', row_blockId = js ''c''\<rparr>]"
  let ?m = "[(js ''ch:C'', js ''c_1''), (js ''vert:C|S|V'', js ''v_1'')]"
  let ?m' = "[(js ''vert:C|S|V'', js ''v_1''), (js ''ch:C'', js ''c_1'')]"
  have m: "map_of ?m' = map_of ?m"
    by (rule ext) (simp add: js_def)
  note t = buildHierarchy_groups [of ?rows ?m "js ''C''" "js ''S''" "js ''V''"]
  have d: "buildHierarchy ?rows ?m' = buildHierarchy ?rows ?m"
    by (rule t [THEN conjunct2, THEN conjunct2, rule_format, OF m])
  have "verticals_at (js ''C'') (js ''S'') (js ''V'') (buildHierarchy ?rows ?m)
     = (if (js ''C'', js ''S'', js ''V'')
           \<in> set (map (\<lambda>r. (row_chapter r, row_sequential r, row_vertical r)) ?rows)
        then [\<lparr>vert_name = js ''V'',
               vert_id = id_or_name ?m (js ''vert:'' @ js ''C'' @ js ''|'' @ js ''S'' @ js ''|'' @ js ''V'')
                           (js ''V''),
               vert_blocks = map (\<lambda>r. \<lparr>ref_type = row_blockType r, ref_blockId = row_blockId r\<rparr>)
                 (filter (\<lambda>r. row_chapter r = js ''C'' \<and> row_sequential r = js ''S''
                               \<and> row_vertical r = js ''V'') ?rows)\<rparr>]
        else [])"
    by (rule t [THEN conjunct2, THEN conjunct1])
  also have "\<dots> = [\<lparr>vert_name = js ''V'', vert_id = js ''v_1'',
       vert_blocks = [\<lparr>ref_type = js ''text'', ref_blockId = js ''a''\<rparr>,
                      \<lparr>ref_type = js ''problem'', ref_blockId = js ''c''\<rparr>]\<rparr>]"
    by (simp add: js_def id_or_name_def map_get_def)
  finally have v: "verticals_at (js ''C'') (js ''S'') (js ''V'') (buildHierarchy ?rows ?m)
     = [\<lparr>vert_name = js ''V'', vert_id = js ''v_1'',
       vert_blocks = [\<lparr>ref_type = js ''text'', ref_blockId = js ''a''\<rparr>,
                      \<lparr>ref_type = js ''problem'', ref_blockId = js ''c''\<rparr>]\<rparr>]" .
  from v d show ?thesis by (rule conjI)
qed

section \<open>The workbook decoder\<close>

subsection \<open>The Problems sheet\<close>

lemma length_readChoices:
  "length (readChoices u r)
     = length (filter (\<lambda>letter. objStr u r (js ''choice_'' @ letter) \<noteq> []) choiceLetters)"
proof -
  have "length (concat (map (\<lambda>letter.
          (let txt = objStr u r (js ''choice_'' @ letter)
           in if txt = [] then [] else [f letter txt])) ls))
        = length (filter (\<lambda>letter. objStr u r (js ''choice_'' @ letter) \<noteq> []) ls)" for f :: "jsstring \<Rightarrow> jsstring \<Rightarrow> choice" and ls
    by (induction ls) (simp_all add: Let_def)
  note * = this
  show ?thesis unfolding readChoices_def by (rule *)
qed

lemma correct_readChoices:
  "map choice_correct (readChoices u r)
     = map (\<lambda>letter. toUpperCase u letter \<in> correctSet u r)
         (filter (\<lambda>letter. objStr u r (js ''choice_'' @ letter) \<noteq> []) choiceLetters)"
proof -
  have "map choice_correct (concat (map (\<lambda>letter.
          (let txt = objStr u r (js ''choice_'' @ letter)
           in if txt = [] then []
              else [\<lparr>choice_text = txt, choice_correct = g letter, choice_hint = h letter\<rparr>])) ls))
        = map g (filter (\<lambda>letter. objStr u r (js ''choice_'' @ letter) \<noteq> []) ls)" for g h ls
    by (induction ls) (simp_all add: Let_def)
  note * = this
  show ?thesis unfolding readChoices_def by (rule *)
qed

lemma list_ex_correct:
  "list_ex choice_correct cs \<longleftrightarrow> True \<in> set (map choice_correct cs)"
  by (induction cs) auto

lemma text_readChoices:
  "map choice_text (readChoices u r)
     = map (\<lambda>letter. objStr u r (js ''choice_'' @ letter))
         (filter (\<lambda>letter. objStr u r (js ''choice_'' @ letter) \<noteq> []) choiceLetters)"
proof -
  have "map choice_text (concat (map (\<lambda>letter.
          (let txt = objStr u r (js ''choice_'' @ letter)
           in if txt = [] then []
              else [\<lparr>choice_text = txt, choice_correct = g letter, choice_hint = h letter\<rparr>])) ls))
        = map (\<lambda>letter. objStr u r (js ''choice_'' @ letter))
            (filter (\<lambda>letter. objStr u r (js ''choice_'' @ letter) \<noteq> []) ls)" for g h ls
    by (induction ls) (simp_all add: Let_def)
  note * = this
  show ?thesis unfolding readChoices_def by (rule *)
qed

lemma no_correct_choice:
  "\<not> list_ex choice_correct (readChoices u r)
     \<longleftrightarrow> filter (\<lambda>letter. toUpperCase u letter \<in> correctSet u r)
           (filter (\<lambda>letter. objStr u r (js ''choice_'' @ letter) \<noteq> []) choiceLetters) = []"
proof -
  have "filter g xs = [] \<longleftrightarrow> True \<notin> set (map g xs)" for g :: "jsstring \<Rightarrow> bool" and xs
    by (induction xs) auto
  then show ?thesis
    by (simp only: list_ex_correct correct_readChoices)
qed

lemma map_has_map_set: "map_has (map_set m k v) k"
  by (induction m) (force simp: map_has_def)+

lemma readProblemRow_result:
  assumes "rowNumber \<noteq> 1" and "objStr u (rowToObject row headers) (js ''block_id'') \<noteq> []"
  shows "(let r = rowToObject row headers;
              blockId = objStr u r (js ''block_id'');
              filled = filter (\<lambda>letter. objStr u r (js ''choice_'' @ letter) \<noteq> []) choiceLetters;
              marked = filter (\<lambda>letter. toUpperCase u letter \<in> correctSet u r) filled
          in if length filled < 2 \<or> marked = []
             then \<exists>e. readProblemRow u headers (rowNumber, row) (data, errors)
                        = (data, errors @ [e])
             else \<exists>b. readProblemRow u headers (rowNumber, row) (data, errors)
                        = (data\<lparr>problemBlocks := map_set (problemBlocks data) blockId b\<rparr>, errors)
                      \<and> map_has (map_set (problemBlocks data) blockId b) blockId
                      \<and> problem_blockId b = blockId
                      \<and> map choice_text (choices b) = map (\<lambda>letter. objStr u r (js ''choice_'' @ letter)) filled
                      \<and> map choice_correct (choices b)
                          = map (\<lambda>letter. toUpperCase u letter \<in> correctSet u r) filled)"
proof -
  let ?r = "rowToObject row headers"
  let ?blockId = "objStr u ?r (js ''block_id'')"
  let ?filled = "filter (\<lambda>letter. objStr u ?r (js ''choice_'' @ letter) \<noteq> []) choiceLetters"
  let ?marked = "filter (\<lambda>letter. toUpperCase u letter \<in> correctSet u ?r) ?filled"
  let ?b = "\<lparr>problem_blockId = ?blockId,
             problem_title = or_default (Some (objStr u ?r (js ''title''))) ?blockId,
             questionText = objStr u ?r (js ''question_text''),
             choices = readChoices u ?r,
             explanation = objStr u ?r (js ''explanation''),
             showAnswer = or_default (Some (objStr u ?r (js ''show_answer''))) (js ''attempted'')\<rparr>"
  show ?thesis
  proof (cases "length ?filled < 2 \<or> ?marked = []")
    case True
    then have "\<exists>e. readProblemRow u headers (rowNumber, row) (data, errors) = (data, errors @ [e])"
      using assms
      by (auto simp: readProblemRow_def Let_def length_readChoices no_correct_choice)
    with True show ?thesis by (simp only: Let_def if_True)
  next
    case False
    then have "readProblemRow u headers (rowNumber, row) (data, errors)
                 = (data\<lparr>problemBlocks := map_set (problemBlocks data) ?blockId ?b\<rparr>, errors)"
      using assms
      by (simp add: readProblemRow_def Let_def length_readChoices no_correct_choice)
    moreover have "map_has (map_set (problemBlocks data) ?blockId ?b) ?blockId"
      by (rule map_has_map_set)
    moreover have "problem_blockId ?b = ?blockId" by simp
    moreover have "map choice_text (choices ?b)
                     = map (\<lambda>letter. objStr u ?r (js ''choice_'' @ letter)) ?filled"
      by (simp add: text_readChoices)
    moreover have "map choice_correct (choices ?b)
                     = map (\<lambda>letter. toUpperCase u letter \<in> correctSet u ?r) ?filled"
      by (simp add: correct_readChoices)
    ultimately have "\<exists>b. readProblemRow u headers (rowNumber, row) (data, errors)
                        = (data\<lparr>problemBlocks := map_set (problemBlocks data) ?blockId b\<rparr>, errors)
                      \<and> map_has (map_set (problemBlocks data) ?blockId b) ?blockId
                      \<and> problem_blockId b = ?blockId
                      \<and> map choice_text (choices b)
                          = map (\<lambda>letter. objStr u ?r (js ''choice_'' @ letter)) ?filled
                      \<and> map choice_correct (choices b)
                          = map (\<lambda>letter. toUpperCase u letter \<in> correctSet u ?r) ?filled"
      by blast
    with False show ?thesis by (simp only: Let_def if_False)
  qed
qed


subsection \<open>The letter list\<close>














lemma split_B_D: "splitRuns isCorrectSeparator (js ''B,D'') = [js ''B'', js ''D'']"
  by code_simp

lemma upper_B_D: "toUpperCase u (js ''B,D'') = js ''B,D''"
  by (simp add: toUpperCase_def js_def isAscii_def asciiUpper_def)

lemma correctSet_B_D:
  assumes "objStr u r (js ''correct'') = js ''B,D''"
  shows "correctSet u r = {js ''B'', js ''D''}"
  unfolding correctSet_def Let_def assms upper_B_D split_B_D
  by (simp add: js_def)

lemma upper_letters:
  "map (toUpperCase u) choiceLetters = [js ''A'', js ''B'', js ''C'', js ''D'', js ''E'', js ''F'']"
  by (simp add: choiceLetters_def toUpperCase_def js_def isAscii_def asciiUpper_def)

lemma B_D_flags:
  assumes "correctSet u r = {js ''B'', js ''D''}"
  shows "map (\<lambda>letter. toUpperCase u letter \<in> correctSet u r) choiceLetters
          = [False, True, False, True, False, False]"
proof -
  have "map (\<lambda>letter. toUpperCase u letter \<in> correctSet u r) choiceLetters
      = map (\<lambda>x. x \<in> {js ''B'', js ''D''}) (map (toUpperCase u) choiceLetters)"
    by (simp add: assms comp_def)
  also have "\<dots> = [False, True, False, True, False, False]"
    unfolding upper_letters by (simp add: js_def)
  finally show ?thesis .
qed

text \<open>
  Claim C6. A row whose \<open>correct\<close> column is \<open>B,D\<close> and whose six choice columns are all
  filled gives a block with six choices, of which exactly those at the indices 1 and 3
  (from 0) are marked correct.
\<close>

theorem readProblemRow_B_D:
  assumes "rowNumber \<noteq> 1"
    and "objStr u (rowToObject row headers) (js ''block_id'') \<noteq> []"
    and "objStr u (rowToObject row headers) (js ''correct'') = js ''B,D''"
    and "list_all (\<lambda>letter. objStr u (rowToObject row headers) (js ''choice_'' @ letter) \<noteq> [])
           choiceLetters"
  shows "\<exists>b. readProblemRow u headers (rowNumber, row) (data, errors)
               = (data\<lparr>problemBlocks :=
                         map_set (problemBlocks data)
                           (objStr u (rowToObject row headers) (js ''block_id'')) b\<rparr>,
                  errors)
             \<and> length (choices b) = 6
             \<and> map choice_correct (choices b) = [False, True, False, True, False, False]"
proof -
  let ?r = "rowToObject row headers"
  let ?filled = "filter (\<lambda>letter. objStr u ?r (js ''choice_'' @ letter) \<noteq> []) choiceLetters"
  let ?g = "\<lambda>letter. toUpperCase u letter \<in> correctSet u ?r"
  from assms(4) have filled: "?filled = choiceLetters"
    by (simp add: list_all_iff)
  have flags: "map ?g choiceLetters = [False, True, False, True, False, False]"
    by (rule B_D_flags [OF correctSet_B_D [OF assms(3)]])
  have "filter ?g choiceLetters \<noteq> []"
  proof
    assume "filter ?g choiceLetters = []"
    then have "\<forall>x \<in> set choiceLetters. \<not> ?g x" by (simp add: filter_empty_conv)
    then have "True \<notin> set (map ?g choiceLetters)" by auto
    then show False unfolding flags by simp
  qed
  moreover have "\<not> length choiceLetters < 2" by (simp add: choiceLetters_def)
  ultimately have cond: "(length ?filled < 2 \<or> filter ?g ?filled = []) = False"
    unfolding filled by simp
  from readProblemRow_result [OF assms(1, 2), of data errors]
  have "\<exists>b. readProblemRow u headers (rowNumber, row) (data, errors)
          = (data\<lparr>problemBlocks := map_set (problemBlocks data) (objStr u ?r (js ''block_id'')) b\<rparr>, errors)
        \<and> map_has (map_set (problemBlocks data) (objStr u ?r (js ''block_id'')) b) (objStr u ?r (js ''block_id''))
        \<and> problem_blockId b = objStr u ?r (js ''block_id'')
        \<and> map choice_text (choices b) = map (\<lambda>letter. objStr u ?r (js ''choice_'' @ letter)) ?filled
        \<and> map choice_correct (choices b) = map ?g ?filled"
    unfolding Let_def cond if_False .
  then obtain b where b: "readProblemRow u headers (rowNumber, row) (data, errors)
        = (data\<lparr>problemBlocks := map_set (problemBlocks data) (objStr u ?r (js ''block_id'')) b\<rparr>, errors)"
    and c: "map choice_correct (choices b) = map ?g ?filled"
    by (elim exE conjE)
  from c have c': "map choice_correct (choices b) = [False, True, False, True, False, False]"
    unfolding filled flags .
  then have "length (map choice_correct (choices b)) = 6" by simp
  then have "length (choices b) = 6" by simp
  with b c' show ?thesis by (intro exI conjI)
qed

theorem readProblemRow_B_D_witness:
  "objStr ascii_only
     (rowToObject
        [(1, CPlain (js ''q1'')), (2, CPlain (js ''1'')), (3, CPlain (js ''2'')),
         (4, CPlain (js ''3'')), (5, CPlain (js ''4'')), (6, CPlain (js ''5'')),
         (7, CPlain (js ''6'')), (8, CPlain (js ''B,D''))]
        [(1, js ''block_id''), (2, js ''choice_a''), (3, js ''choice_b''), (4, js ''choice_c''),
         (5, js ''choice_d''), (6, js ''choice_e''), (7, js ''choice_f''), (8, js ''correct'')])
     (js ''block_id'') = js ''q1''
   \<and> (\<exists>b. readProblemRow ascii_only
              [(1, js ''block_id''), (2, js ''choice_a''), (3, js ''choice_b''), (4, js ''choice_c''),
               (5, js ''choice_d''), (6, js ''choice_e''), (7, js ''choice_f''), (8, js ''correct'')]
              (2, [(1, CPlain (js ''q1'')), (2, CPlain (js ''1'')), (3, CPlain (js ''2'')),
                   (4, CPlain (js ''3'')), (5, CPlain (js ''4'')), (6, CPlain (js ''5'')),
                   (7, CPlain (js ''6'')), (8, CPlain (js ''B,D''))])
              (createCourseData, [])
            = (createCourseData\<lparr>problemBlocks := [(js ''q1'', b)]\<rparr>, [])
          \<and> length (choices b) = 6
          \<and> map choice_correct (choices b) = [False, True, False, True, False, False])"
proof -
  let ?headers = "[(1, js ''block_id''), (2, js ''choice_a''), (3, js ''choice_b''), (4, js ''choice_c''),
         (5, js ''choice_d''), (6, js ''choice_e''), (7, js ''choice_f''), (8, js ''correct'')]"
  let ?row = "[(1, CPlain (js ''q1'')), (2, CPlain (js ''1'')), (3, CPlain (js ''2'')),
         (4, CPlain (js ''3'')), (5, CPlain (js ''4'')), (6, CPlain (js ''5'')),
         (7, CPlain (js ''6'')), (8, CPlain (js ''B,D''))]"
  let ?r = "rowToObject ?row ?headers"
  have id: "objStr ascii_only ?r (js ''block_id'') = js ''q1''"
    by code_simp
  have h1: "(2::nat) \<noteq> 1" by simp
  have h2: "objStr ascii_only ?r (js ''block_id'') \<noteq> []"
    unfolding id by (simp add: js_def)
  have h3: "objStr ascii_only ?r (js ''correct'') = js ''B,D''"
    by code_simp
  have h4: "list_all (\<lambda>letter. objStr ascii_only ?r (js ''choice_'' @ letter) \<noteq> []) choiceLetters"
    by code_simp
  have m: "map_set (problemBlocks createCourseData) (js ''q1'') b = [(js ''q1'', b)]" for b
    by (simp add: createCourseData_def)
  from readProblemRow_B_D [OF h1 h2 h3 h4, of createCourseData "[]"]
  have "\<exists>b. readProblemRow ascii_only ?headers (2, ?row) (createCourseData, [])
            = (createCourseData\<lparr>problemBlocks := [(js ''q1'', b)]\<rparr>, [])
          \<and> length (choices b) = 6
          \<and> map choice_correct (choices b) = [False, True, False, True, False, False]"
    unfolding id m .
  with id show ?thesis by (rule conjI)
qed

subsection \<open>The cross-validation\<close>


















section \<open>The dates of the course\<close>

text \<open>
  Claim C4 does not hold of \<open>generateCourse\<close>. The generator decides on the attribute by
  the date as given, \<open>info.startDate ? ... : ''\<close>, not by the formatted date: for every
  course whose start date is not empty and is a date that \<open>new Date\<close> cannot read, the
  file \<open>course/{run}.xml\<close> is generated and carries the attribute \<open>start=""\<close>, with an empty
  value, where the specification has no attribute; and the same for the end date.
\<close>

theorem courseRunXml_unparseable_date:
  "(startDate i \<noteq> [] \<and> toISO (startDate i) = None
      \<longrightarrow> (\<exists>before after. courseRunXml toISO i chapters
                               = before @ js '' start='' @ quoted [] @ after))
   \<and> (endDate i \<noteq> [] \<and> toISO (endDate i) = None
      \<longrightarrow> (\<exists>before after. courseRunXml toISO i chapters
                               = before @ js '' end='' @ quoted [] @ after))"
proof (intro conjI impI)
  assume a: "startDate i \<noteq> [] \<and> toISO (startDate i) = None"
  then have f: "esc (formatEdxDate toISO (startDate i)) = []"
    by (simp add: formatEdxDate_def esc_def escapeXml_chars)
  let ?before = "js ''<course display_name='' @ quoted (esc (courseName i))
                 @ js '' language='' @ quoted (esc (language i))
                 @ (if selfPaced i then js '' self_paced='' @ quoted (js ''true'') else [])"
  let ?after = "(if endDate i \<noteq> []
                 then js '' end='' @ quoted (esc (formatEdxDate toISO (endDate i))) else [])
                @ js ''>'' @ [0x0A]
                @ concat (map (\<lambda>ch. js ''  <chapter url_name='' @ quoted (esc (ch_id ch))
                                      @ js ''/>'' @ [0x0A]) chapters)
                @ js ''</course>'' @ [0x0A]"
  have "courseRunXml toISO i chapters = ?before @ js '' start='' @ quoted [] @ ?after"
    using a by (simp add: courseRunXml_def Let_def f)
  then show "\<exists>before after. courseRunXml toISO i chapters
               = before @ js '' start='' @ quoted [] @ after"
    by blast
next
  assume a: "endDate i \<noteq> [] \<and> toISO (endDate i) = None"
  then have f: "esc (formatEdxDate toISO (endDate i)) = []"
    by (simp add: formatEdxDate_def esc_def escapeXml_chars)
  let ?before = "js ''<course display_name='' @ quoted (esc (courseName i))
                 @ js '' language='' @ quoted (esc (language i))
                 @ (if selfPaced i then js '' self_paced='' @ quoted (js ''true'') else [])
                 @ (if startDate i \<noteq> []
                    then js '' start='' @ quoted (esc (formatEdxDate toISO (startDate i))) else [])"
  let ?after = "js ''>'' @ [0x0A]
                @ concat (map (\<lambda>ch. js ''  <chapter url_name='' @ quoted (esc (ch_id ch))
                                      @ js ''/>'' @ [0x0A]) chapters)
                @ js ''</course>'' @ [0x0A]"
  have "courseRunXml toISO i chapters = ?before @ js '' end='' @ quoted [] @ ?after"
    using a by (simp add: courseRunXml_def Let_def f)
  then show "\<exists>before after. courseRunXml toISO i chapters
               = before @ js '' end='' @ quoted [] @ after"
    by blast
qed

theorem courseRunXml_unparseable_date_witness:
  "startDate ((info createCourseData)\<lparr>startDate := js ''soon''\<rparr>) \<noteq> []
   \<and> (\<lambda>s. None) (startDate ((info createCourseData)\<lparr>startDate := js ''soon''\<rparr>)) = None
   \<and> (\<exists>before after.
         courseRunXml (\<lambda>s. None) ((info createCourseData)\<lparr>startDate := js ''soon''\<rparr>) []
         = before @ js '' start='' @ quoted [] @ after)"
  using courseRunXml_unparseable_date
          [of "(info createCourseData)\<lparr>startDate := js ''soon''\<rparr>" "\<lambda>s. None" "[]"]
  by (simp add: createCourseData_def js_def)

section \<open>The decoder without course.xml\<close>

text \<open>
  Claim C7. When the files hold no entry at the path \<open>course.xml\<close>, \<open>parseOlx\<close> returns:
  its result is the model of \<open>createCourseData()\<close>, with the info at its defaults, no row
  of structure and the four maps of blocks empty, and exactly one warning, the one of the
  missing file.
\<close>

theorem parseOlx_missing_course_xml:
  assumes "map_get files (js ''course.xml'') = None"
  shows "parseOlx parseJson files = (createCourseData, [missingCourseXml])
         \<and> length (snd (parseOlx parseJson files)) = 1
         \<and> info (fst (parseOlx parseJson files))
           = \<lparr>courseName = [], org = [], courseId = [], run = [], language = js ''en'',
              startDate = [], endDate = [], selfPaced = True\<rparr>
         \<and> structureRows (fst (parseOlx parseJson files)) = []
         \<and> textBlocks (fst (parseOlx parseJson files)) = []
         \<and> videoBlocks (fst (parseOlx parseJson files)) = []
         \<and> problemBlocks (fst (parseOlx parseJson files)) = []
         \<and> openResponseBlocks (fst (parseOlx parseJson files)) = []"
proof -
  have "parseOlx parseJson files = (createCourseData, [missingCourseXml])"
    using assms by (simp add: parseOlx_def getFile_def Let_def)
  then show ?thesis
    by (simp add: createCourseData_def)
qed

theorem parseOlx_missing_course_xml_witness:
  "map_get [(js ''html/a.html'', js ''<p>Hi</p>'')] (js ''course.xml'') = None
   \<and> parseOlx (\<lambda>s. None) [(js ''html/a.html'', js ''<p>Hi</p>'')]
     = (createCourseData, [missingCourseXml])
   \<and> length (snd (parseOlx (\<lambda>s. None) [(js ''html/a.html'', js ''<p>Hi</p>'')])) = 1"
proof -
  have m: "map_get [(js ''html/a.html'', js ''<p>Hi</p>'')] (js ''course.xml'') = None"
    by (simp add: map_get_def js_def)
  from parseOlx_missing_course_xml [OF m, of "\<lambda>s. None"] m
  show ?thesis by simp
qed


section \<open>The way through the files and back\<close>

text \<open>
  The files that the generators write for the course with one text block are read back by
  \<open>parseOlx\<close> with the row of the structure as it was, but with another content of the
  block: \<open>textToHtml\<close> has wrapped the plain text \<open>Hi\<close> into a paragraph, and the decoder
  returns the paragraph. (The policy file plays no part here: \<open>JSON.parse\<close> is taken to
  fail.)
\<close>

lemma parseOlx_exportFiles_plain_text:
  "map_get (textBlocks plainTextCourse) (js ''t1'')
     = Some \<lparr>text_blockId = js ''t1'', text_title = js ''T'', text_content = js ''Hi''\<rparr>
   \<and> (let data = fst (parseOlx (\<lambda>s. None)
                       (exportFiles (\<lambda>s. None) (\<lambda>s. None) plainTextCourse plainTextHierarchy))
      in (map_get (textBlocks data) (js ''t1''), structureRows data))
     = (Some \<lparr>text_blockId = js ''t1'', text_title = js ''T'', text_content = js ''<p>Hi</p>''\<rparr>,
        [\<lparr>row_chapter = js ''C'', row_sequential = js ''S'', row_vertical = js ''V'',
          row_blockType = js ''text'', row_blockId = js ''t1''\<rparr>])"
  by code_simp

text \<open>
  The file that \<open>generateProblemBlocks\<close> writes for a problem is read back by
  \<open>parseProblemBlock\<close> with the choices as they were, but the question in its escaped
  form: the generator escapes the text of an element, and the decoder, which decodes the
  entities in attribute values, does not decode them in the text of an element.
\<close>

lemma parseProblemBlock_escaped_text:
  "map_option (\<lambda>b. (questionText b, choices b))
     (map_get (problemBlocks (fst (parseProblemBlock
                 (generateProblemBlocks [(js ''p1'', comparisonProblem)]) (js ''p1'')
                 (createCourseData, []))))
        (js ''p1''))
   = Some (js ''1 &lt; 2?'', choices comparisonProblem)"
  by code_simp

end
